theory Spec2Isabelle
  imports Complex_Main
begin

section \<open>Chapter candidates\<close>

text \<open>
  The chapter dictionaries built by \<^verbatim>\<open>PDFChapterSplitter\<close> (pdf_processor.py). The keys
  \<^verbatim>\<open>end_page\<close> and \<^verbatim>\<open>font_size\<close> are absent from some dictionaries (the first until
  \<^verbatim>\<open>_calculate_end_pages\<close> has run, the second outside the heading path), so both are
  optional fields. Page numbers are Python integers: \<^verbatim>\<open>start_page - 1\<close> can be negative.
  Font sizes are the floats PyMuPDF reports; they are only compared and sorted, so they
  are taken as real numbers (finite floats are embedded in the reals in their order).
\<close>

record chapter_dict =
  title :: string
  full_title :: string
  parent :: string
  start_page :: int
  end_page :: "int option"
  chapter_num :: nat
  font_size :: "real option"
  level :: nat

section \<open>Boundary resolution: \<^verbatim>\<open>_calculate_end_pages\<close>\<close>

text \<open>
  \<^verbatim>\<open>
  def _calculate_end_pages(self, chapters, total_pages):
      for i in range(len(chapters)):
          if i < len(chapters) - 1:
              chapters[i]['end_page'] = chapters[i + 1]['start_page'] - 1
          else:
              chapters[i]['end_page'] = total_pages - 1
      return chapters
  \<close>
  One iteration of the loop body is \<open>end_pages_step\<close>; the loop is the fold of the body over
  \<^verbatim>\<open>range(len(chapters))\<close>. Both callers pass a list of freshly built dictionaries, so
  the in-place update of \<^verbatim>\<open>chapters[i]\<close> is the list update at index \<open>i\<close>.
\<close>

definition end_pages_step :: "int \<Rightarrow> chapter_dict list \<Rightarrow> nat \<Rightarrow> chapter_dict list" where
  "end_pages_step total_pages chapters i =
     (if int i < int (length chapters) - 1
      then chapters[i := (chapters ! i)\<lparr>end_page := Some (start_page (chapters ! (i + 1)) - 1)\<rparr>]
      else chapters[i := (chapters ! i)\<lparr>end_page := Some (total_pages - 1)\<rparr>])"

definition calculate_end_pages :: "chapter_dict list \<Rightarrow> int \<Rightarrow> chapter_dict list" where
  "calculate_end_pages chapters total_pages =
     foldl (end_pages_step total_pages) chapters [0..<length chapters]"

section \<open>The document as the libraries present it\<close>

text \<open>
  The program reads the file at \<^verbatim>\<open>self.pdf_path\<close> through two libraries. What they return
  is the input of the model:
  \<^item> \<^verbatim>\<open>pikepdf.Pdf.open\<close> either raises or gives a document with \<^verbatim>\<open>len(pdf.pages)\<close> pages
    and an outline; reading the outline (\<^verbatim>\<open>pdf.open_outline()\<close>, \<^verbatim>\<open>outline.root\<close>) either
    raises or gives the list of root items. (\<^verbatim>\<open>hasattr(pdf, 'open_outline')\<close> holds for
    every pikepdf document, so that early return is never taken.)
  \<^item> An outline item has a title, a destination array, an action whose \<^verbatim>\<open>/D\<close> entry is a
    destination array, and children. \<open>None\<close> stands for an absent (falsy) destination or
    an action without \<^verbatim>\<open>/D\<close>. The first element of a destination array is a page object;
    \<^verbatim>\<open>pikepdf.Page(page_obj).index\<close> gives its 0-based index or raises when the object is
    not a page of the document.
  \<^item> \<^verbatim>\<open>fitz.open\<close> either raises or gives the pages; \<^verbatim>\<open>page.get_text("dict")["blocks"]\<close> is
    a list of blocks, a block has the key \<^verbatim>\<open>"lines"\<close> or not (image blocks), a line is a
    list of spans, and a span carries \<^verbatim>\<open>"text"\<close> and \<^verbatim>\<open>"size"\<close>. On such dictionaries no
    access in the scanning loops raises, so \<^verbatim>\<open>fitz.open\<close> is where the heading scan fails.
  Every \<^verbatim>\<open>raise\<close> is a value \<open>Inl e\<close>; every \<^verbatim>\<open>try/except\<close> is a case distinction on it.
\<close>

datatype error = PikepdfError | OutlineError | PageError | FitzError

datatype page_obj = PageObj nat | NotAPage

datatype outline_item =
  OutlineItem (item_title: string) (destination: "page_obj list option")
    (action_D: "page_obj list option") (children: "outline_item list")

record pike_pdf =
  num_pages :: nat
  outline_root :: "outline_item list option"

record span =
  span_text :: string
  span_size :: real

type_synonym line = "span list"
type_synonym block = "line list option"
type_synonym page = "block list"
type_synonym fitz_doc = "page list"

record document =
  pikepdf_open :: "pike_pdf option"
  fitz_open :: "fitz_doc option"

section \<open>Bookmark path\<close>

text \<open>
  \<^verbatim>\<open>_get_bookmark_page\<close>: \<open>get_bookmark_page_try\<close> is the body of its \<^verbatim>\<open>try\<close>; an exception
  there is printed and the function returns \<^verbatim>\<open>None\<close>, without trying the action.
\<close>

definition page_index :: "page_obj \<Rightarrow> error + nat" where
  "page_index page_obj = (case page_obj of PageObj n \<Rightarrow> Inr n | NotAPage \<Rightarrow> Inl PageError)"

definition get_bookmark_page_try :: "outline_item \<Rightarrow> error + nat option" where
  "get_bookmark_page_try outline_item =
     (case destination outline_item of
        Some (page_obj # rest) \<Rightarrow>
          (case page_index page_obj of Inl e \<Rightarrow> Inl e | Inr n \<Rightarrow> Inr (Some n))
      | _ \<Rightarrow>
          (case action_D outline_item of
             Some (page_obj # rest) \<Rightarrow>
               (case page_index page_obj of Inl e \<Rightarrow> Inl e | Inr n \<Rightarrow> Inr (Some n))
           | _ \<Rightarrow> Inr None))"

definition get_bookmark_page :: "outline_item \<Rightarrow> nat option" where
  "get_bookmark_page outline_item =
     (case get_bookmark_page_try outline_item of Inl e \<Rightarrow> None | Inr r \<Rightarrow> r)"

text \<open>
  The separator of the f-string \<^verbatim>\<open>f"{parent_title} -> {title}"\<close> is a blank, the arrow
  U+2192 (three bytes in UTF-8) and a blank; \<open>with_parent\<close> is the conditional expression
  \<^verbatim>\<open>f"..." if parent_title else title\<close>, used for \<^verbatim>\<open>full_parent\<close> and \<^verbatim>\<open>full_title\<close> alike.
\<close>

definition arrow :: string where
  "arrow = [CHR '' '', CHR 0xE2, CHR 0x86, CHR 0x92, CHR '' '']"

definition with_parent :: "string \<Rightarrow> string \<Rightarrow> string" where
  "with_parent parent_title ttl = (if parent_title \<noteq> [] then parent_title @ arrow @ ttl else ttl)"

text \<open>
  \<^verbatim>\<open>_extract_nested_bookmarks\<close>: \<open>extract_loop\<close> is its \<^verbatim>\<open>for item in items\<close> loop, with the
  loop variables \<^verbatim>\<open>chapters\<close> and \<^verbatim>\<open>chapter_num\<close> as arguments (\<open>num\<close>, \<open>ttl\<close> and \<open>lvl\<close> are
  the source's \<^verbatim>\<open>chapter_num\<close>, \<^verbatim>\<open>title\<close> and \<^verbatim>\<open>level\<close>, which are field names here). The
  recursive call of the source starts a fresh loop on the children, with an empty list and
  the current number. The \<^verbatim>\<open>pdf\<close> argument is only passed on to \<^verbatim>\<open>_get_bookmark_page\<close>, where
  the page object already stands for its index. Nothing in the loop body raises
  (\<^verbatim>\<open>_get_bookmark_page\<close> catches its own exceptions), so the \<^verbatim>\<open>except\<close> branch of the loop
  is not reached.
\<close>

fun extract_loop ::
  "outline_item list \<Rightarrow> string \<Rightarrow> nat \<Rightarrow> chapter_dict list \<Rightarrow> nat \<Rightarrow> chapter_dict list" where
  "extract_loop [] parent_title lvl chapters num = chapters"
| "extract_loop (OutlineItem ttl dest act kids # items) parent_title lvl chapters num =
     (let page_num = get_bookmark_page (OutlineItem ttl dest act kids);
          has_children = (length kids > 0)
      in if has_children then
           (let full_parent = with_parent parent_title ttl;
                nested_chapters = extract_loop kids full_parent (lvl + 1) [] num
            in extract_loop items parent_title lvl (chapters @ nested_chapters)
                 (num + length nested_chapters))
         else
           (case page_num of
              Some p \<Rightarrow>
                extract_loop items parent_title lvl
                  (chapters @
                     [\<lparr>title = ttl, full_title = with_parent parent_title ttl,
                       parent = parent_title, start_page = int p, end_page = None,
                       chapter_num = num, font_size = None, level = lvl\<rparr>])
                  (num + 1)
            | None \<Rightarrow> extract_loop items parent_title lvl chapters num))"

definition extract_nested_bookmarks ::
  "outline_item list \<Rightarrow> nat \<Rightarrow> string \<Rightarrow> nat \<Rightarrow> chapter_dict list" where
  "extract_nested_bookmarks items start_num parent_title lvl =
     extract_loop items parent_title lvl [] start_num"

text \<open>
  \<^verbatim>\<open>_detect_from_bookmarks\<close>: the body of its \<^verbatim>\<open>try\<close>, and the \<^verbatim>\<open>except\<close> that turns every
  exception into the empty list.
\<close>

definition detect_from_bookmarks_try :: "document \<Rightarrow> error + chapter_dict list" where
  "detect_from_bookmarks_try d =
     (case pikepdf_open d of
        None \<Rightarrow> Inl PikepdfError
      | Some pdf \<Rightarrow>
          (case outline_root pdf of
             None \<Rightarrow> Inl OutlineError
           | Some root_items \<Rightarrow>
               if root_items = [] then Inr []
               else Inr (calculate_end_pages (extract_nested_bookmarks root_items 1 [] 0)
                           (int (num_pages pdf)))))"

definition detect_from_bookmarks :: "document \<Rightarrow> chapter_dict list" where
  "detect_from_bookmarks d =
     (case detect_from_bookmarks_try d of Inl e \<Rightarrow> [] | Inr chapters \<Rightarrow> chapters)"

section \<open>Characters and strings\<close>

text \<open>
  Span texts are taken as ASCII strings, one \<open>char\<close> for each code point, so that \<open>length\<close>
  is Python's \<^verbatim>\<open>len\<close>. On ASCII, \<^verbatim>\<open>str.isupper\<close> of one character holds for A to Z,
  \<^verbatim>\<open>str.lower\<close> maps A to Z to a to z and leaves the rest, the class \<^verbatim>\<open>\d\<close> is 0 to 9, and
  \<^verbatim>\<open>\s\<close> and \<^verbatim>\<open>str.strip\<close> take the blank, the controls 0x09 to 0x0D and 0x1C to 0x1F as white
  space.

  Outside ASCII the functions below are not those of Python, which follows Unicode there:
  U+00C9 is upper-case for \<^verbatim>\<open>str.isupper\<close> and is changed by \<^verbatim>\<open>str.lower\<close>, U+00A0 and U+0085
  are white space for \<^verbatim>\<open>\s\<close> and \<^verbatim>\<open>str.strip\<close>, while the functions below treat every code
  from 0x80 on as neither a letter nor white space. A statement that depends on the heading
  test of a text therefore either restricts the text to ASCII (\<open>isascii\<close>, defined with the
  characterisations) or confines it by its hypotheses to texts on which the code decides the
  same way.
\<close>

definition ascii_uppercase :: string where
  "ascii_uppercase = ''ABCDEFGHIJKLMNOPQRSTUVWXYZ''"

definition ascii_lowercase :: string where
  "ascii_lowercase = ''abcdefghijklmnopqrstuvwxyz''"

definition ascii_digits :: string where
  "ascii_digits = ''0123456789''"

definition ascii_whitespace :: string where
  "ascii_whitespace =
     [CHR '' '', CHR 0x09, CHR 0x0A, CHR 0x0B, CHR 0x0C, CHR 0x0D,
      CHR 0x1C, CHR 0x1D, CHR 0x1E, CHR 0x1F]"

definition isupper :: "char \<Rightarrow> bool" where
  "isupper c = (c \<in> set ascii_uppercase)"

definition isdigit :: "char \<Rightarrow> bool" where
  "isdigit c = (c \<in> set ascii_digits)"

definition isspace :: "char \<Rightarrow> bool" where
  "isspace c = (c \<in> set ascii_whitespace)"

definition lower_char :: "char \<Rightarrow> char" where
  "lower_char c =
     (case map_of (zip ascii_uppercase ascii_lowercase) c of Some l \<Rightarrow> l | None \<Rightarrow> c)"

definition lower :: "string \<Rightarrow> string" where
  "lower s = map lower_char s"

definition strip :: "string \<Rightarrow> string" where
  "strip s = rev (dropWhile isspace (rev (dropWhile isspace s)))"

section \<open>Regular expressions\<close>

text \<open>
  The five patterns of \<^verbatim>\<open>_is_chapter_heading\<close> are built from character classes,
  concatenation and the repetitions \<^verbatim>\<open>+\<close> and \<^verbatim>\<open>{5,}\<close>; each starts with \<^verbatim>\<open>^\<close> and one ends
  with \<^verbatim>\<open>$\<close>. \<^verbatim>\<open>re.search\<close> finds a match exactly when one exists, so it is modelled by the
  language of the expression, decided with derivatives: \<open>deriv c r\<close> matches the rest of
  every word of \<open>r\<close> that starts with \<open>c\<close>. With \<^verbatim>\<open>^\<close> and no flags a match starts at the first
  character and may end anywhere (\<open>match_prefix\<close>); \<^verbatim>\<open>$\<close> holds at the end of the string and
  before a line feed that ends it (\<open>dollar\<close>, then the whole string is matched).
\<close>

datatype regex =
  Never
  | Empty
  | Class "char \<Rightarrow> bool"
  | Cat regex regex
  | Alt regex regex
  | Star regex

primrec nullable :: "regex \<Rightarrow> bool" where
  "nullable Never = False"
| "nullable Empty = True"
| "nullable (Class p) = False"
| "nullable (Cat r s) = (nullable r \<and> nullable s)"
| "nullable (Alt r s) = (nullable r \<or> nullable s)"
| "nullable (Star r) = True"

primrec deriv :: "char \<Rightarrow> regex \<Rightarrow> regex" where
  "deriv c Never = Never"
| "deriv c Empty = Never"
| "deriv c (Class p) = (if p c then Empty else Never)"
| "deriv c (Cat r s) =
     (if nullable r then Alt (Cat (deriv c r) s) (deriv c s) else Cat (deriv c r) s)"
| "deriv c (Alt r s) = Alt (deriv c r) (deriv c s)"
| "deriv c (Star r) = Cat (deriv c r) (Star r)"

primrec match_prefix :: "regex \<Rightarrow> string \<Rightarrow> bool" where
  "match_prefix r [] = nullable r"
| "match_prefix r (c # cs) = (nullable r \<or> match_prefix (deriv c r) cs)"

primrec match_all :: "regex \<Rightarrow> string \<Rightarrow> bool" where
  "match_all r [] = nullable r"
| "match_all r (c # cs) = match_all (deriv c r) cs"

primrec literal :: "string \<Rightarrow> regex" where
  "literal [] = Empty"
| "literal (c # cs) = Cat (Class (\<lambda>x. x = c)) (literal cs)"

primrec at_least :: "nat \<Rightarrow> regex \<Rightarrow> regex" where
  "at_least 0 r = Star r"
| "at_least (Suc n) r = Cat r (at_least n r)"

definition dollar :: regex where
  "dollar = Alt Empty (Class (\<lambda>x. x = CHR 0x0A))"

datatype pattern = Caret regex | CaretDollar regex

definition re_search :: "pattern \<Rightarrow> string \<Rightarrow> bool" where
  "re_search p s =
     (case p of Caret r \<Rightarrow> match_prefix r s | CaretDollar r \<Rightarrow> match_all (Cat r dollar) s)"

section \<open>Heading pattern test: \<^verbatim>\<open>_is_chapter_heading\<close>\<close>

text \<open>
  \<^verbatim>\<open>
  patterns = [
      r'^chapter\s+\d+',       # "Chapter 1", "Chapter 2", etc.
      r'^\d+\.\s+[A-Z]',       # "1. Introduction", "2. Methods"
      r'^[A-Z][A-Z\s]{5,}$',   # ALL CAPS HEADINGS
      r'^Part\s+[IVX\d]+',     # "Part I", "Part II"
      r'^Section\s+\d+',       # "Section 1"
  ]
  text_lower = text.lower()
  for pattern in patterns:
      if re.search(pattern, text_lower):
          return True
  if (len(text) < 100 and len(text) > 3 and text[0].isupper()):
      return True
  return False
  \<close>
  The patterns are searched in the lower-cased text, the last test reads the text as given.
  \<^verbatim>\<open>text[0]\<close> is read only when the length is above 3.
\<close>

definition patterns :: "pattern list" where
  "patterns =
     [Caret (Cat (literal ''chapter'')
              (Cat (at_least 1 (Class isspace)) (at_least 1 (Class isdigit)))),
      Caret (Cat (at_least 1 (Class isdigit))
              (Cat (literal ''.'') (Cat (at_least 1 (Class isspace)) (Class isupper)))),
      CaretDollar (Cat (Class isupper) (at_least 5 (Class (\<lambda>x. isupper x \<or> isspace x)))),
      Caret (Cat (literal ''Part'')
              (Cat (at_least 1 (Class isspace))
                 (at_least 1 (Class (\<lambda>x. x \<in> set ''IVX'' \<or> isdigit x))))),
      Caret (Cat (literal ''Section'')
              (Cat (at_least 1 (Class isspace)) (at_least 1 (Class isdigit))))]"

definition is_chapter_heading :: "string \<Rightarrow> bool" where
  "is_chapter_heading txt =
     (let text_lower = lower txt in
      if list_ex (\<lambda>pattern. re_search pattern text_lower) patterns then True
      else if length txt < 100 \<and> length txt > 3 \<and> isupper (hd txt) then True
      else False)"

section \<open>Heading path\<close>

text \<open>
  Both \<^verbatim>\<open>_analyze_font_sizes\<close> and \<^verbatim>\<open>_detect_from_headings\<close> walk a page in the same nest:
  \<^verbatim>\<open>for block in blocks\<close> (skipping blocks without \<^verbatim>\<open>"lines"\<close>), \<^verbatim>\<open>for line in block["lines"]\<close>,
  \<^verbatim>\<open>for span in line["spans"]\<close>. \<open>page_spans\<close> is the list of spans in the order the nest
  visits them.
\<close>

definition page_spans :: "page \<Rightarrow> span list" where
  "page_spans blocks =
     concat (map (\<lambda>block. case block of None \<Rightarrow> [] | Some block_lines \<Rightarrow> concat block_lines)
       blocks)"

text \<open>
  \<^verbatim>\<open>_analyze_font_sizes\<close>: the loop \<^verbatim>\<open>for page_num in range(min(20, len(doc)))\<close>, appending
  the size of every span of \<^verbatim>\<open>doc[page_num]\<close>.
\<close>

definition analyze_font_sizes :: "fitz_doc \<Rightarrow> real list" where
  "analyze_font_sizes doc =
     foldl (\<lambda>font_sizes page_num. font_sizes @ map span_size (page_spans (doc ! page_num)))
       [] [0..<min 20 (length doc)]"

text \<open>
  \<^verbatim>\<open>
  def _calculate_heading_threshold(self, font_sizes):
      if not font_sizes:
          return 14.0
      sorted_sizes = sorted(font_sizes, reverse=True)
      percentile_90_idx = int(len(sorted_sizes) * 0.1)
      return sorted_sizes[percentile_90_idx] if percentile_90_idx < len(sorted_sizes) else 14.0
  \<close>
  \<^verbatim>\<open>int\<close> truncates the non-negative product, so it is the floor. The double nearest to
  0.1 exceeds one tenth by less than \<open>10\<^sup>-\<^sup>1\<^sup>7\<close>, so for every list length below \<open>2\<^sup>5\<^sup>3\<close> the
  floating-point product has the integer part of the exact tenth, which the model takes.
\<close>

definition calculate_heading_threshold :: "real list \<Rightarrow> real" where
  "calculate_heading_threshold font_sizes =
     (if font_sizes = [] then 14
      else
        (let sorted_sizes = rev (sort font_sizes);
             percentile_90_idx = nat \<lfloor>real (length sorted_sizes) * 0.1\<rfloor>
         in if percentile_90_idx < length sorted_sizes then sorted_sizes ! percentile_90_idx
            else 14))"

text \<open>
  The scan of \<^verbatim>\<open>_detect_from_headings\<close>: \<open>scan_span\<close> is the body of the innermost loop on
  the loop state (\<^verbatim>\<open>chapters\<close>, \<^verbatim>\<open>chapter_num\<close>), \<open>scan_page\<close> the loops over one page, and
  \<open>scan_pages\<close> the loop \<^verbatim>\<open>for page_num in range(len(doc))\<close> from the initial state
  \<^verbatim>\<open>chapters = []\<close>, \<^verbatim>\<open>chapter_num = 1\<close>.
\<close>

definition scan_span ::
  "real \<Rightarrow> nat \<Rightarrow> chapter_dict list \<times> nat \<Rightarrow> span \<Rightarrow> chapter_dict list \<times> nat" where
  "scan_span heading_threshold page_num st sp =
     (let chapters = fst st; num = snd st;
          txt = strip (span_text sp);
          fs = span_size sp
      in if fs \<ge> heading_threshold \<and> is_chapter_heading txt
         then (chapters @
                 [\<lparr>title = txt, full_title = txt, parent = [], start_page = int page_num,
                   end_page = None, chapter_num = num, font_size = Some fs, level = 0\<rparr>],
               num + 1)
         else (chapters, num))"

definition scan_page ::
  "fitz_doc \<Rightarrow> real \<Rightarrow> chapter_dict list \<times> nat \<Rightarrow> nat \<Rightarrow> chapter_dict list \<times> nat" where
  "scan_page doc heading_threshold st page_num =
     foldl (scan_span heading_threshold page_num) st (page_spans (doc ! page_num))"

definition scan_pages :: "fitz_doc \<Rightarrow> real \<Rightarrow> chapter_dict list \<times> nat" where
  "scan_pages doc heading_threshold =
     foldl (scan_page doc heading_threshold) ([], 1) [0..<length doc]"

text \<open>The body of the \<^verbatim>\<open>try\<close> of \<^verbatim>\<open>_detect_from_headings\<close>.\<close>

definition detect_from_headings_try :: "document \<Rightarrow> error + chapter_dict list" where
  "detect_from_headings_try d =
     (case fitz_open d of
        None \<Rightarrow> Inl FitzError
      | Some doc \<Rightarrow>
          (let font_sizes = analyze_font_sizes doc;
               heading_threshold = calculate_heading_threshold font_sizes;
               chapters = fst (scan_pages doc heading_threshold)
           in Inr (calculate_end_pages chapters (int (length doc)))))"

section \<open>Default chapters: \<^verbatim>\<open>_create_default_chapters\<close>\<close>

text \<open>
  \<^verbatim>\<open>
  def _create_default_chapters(self):
      pdf = pikepdf.Pdf.open(self.pdf_path)
      total_pages = len(pdf.pages)
      pdf.close()
      chapters = []
      pages_per_chapter = 20
      for i in range(0, total_pages, pages_per_chapter):
          chapter_num = len(chapters) + 1
          chapters.append({'title': f'Section {chapter_num}', ...,
              'start_page': i,
              'end_page': min(i + pages_per_chapter - 1, total_pages - 1),
              'chapter_num': chapter_num, 'level': 0})
      return chapters
  \<close>
  The function opens the file again, outside any \<^verbatim>\<open>try\<close>. \<open>str_nat\<close> is the decimal
  numeral of the f-string, \<open>py_range\<close> is \<^verbatim>\<open>range(start, stop, step)\<close> for a positive step,
  and \<open>default_step\<close> is the loop body.
\<close>

fun str_nat :: "nat \<Rightarrow> string" where
  "str_nat n =
     (if n < 10 then [ascii_digits ! n]
      else str_nat (n div 10) @ [ascii_digits ! (n mod 10)])"

declare str_nat.simps [simp del]

function py_range :: "nat \<Rightarrow> nat \<Rightarrow> nat \<Rightarrow> nat list" where
  "py_range i stop step =
     (if i < stop \<and> 0 < step then i # py_range (i + step) stop step else [])"
  by pat_completeness auto
termination
  by (relation "measure (\<lambda>(i, stop, step). stop - i)") auto

declare py_range.simps [simp del]

definition pages_per_chapter :: nat where
  "pages_per_chapter = 20"

definition default_step :: "nat \<Rightarrow> chapter_dict list \<Rightarrow> nat \<Rightarrow> chapter_dict list" where
  "default_step total_pages chapters i =
     (let num = length chapters + 1 in
      chapters @
        [\<lparr>title = ''Section '' @ str_nat num, full_title = ''Section '' @ str_nat num,
          parent = [], start_page = int i,
          end_page = Some (min (int i + int pages_per_chapter - 1) (int total_pages - 1)),
          chapter_num = num, font_size = None, level = 0\<rparr>])"

definition create_default_chapters :: "document \<Rightarrow> error + chapter_dict list" where
  "create_default_chapters d =
     (case pikepdf_open d of
        None \<Rightarrow> Inl PikepdfError
      | Some pdf \<Rightarrow>
          (let total_pages = num_pages pdf in
           Inr (foldl (default_step total_pages) [] (py_range 0 total_pages pages_per_chapter))))"

text \<open>
  \<^verbatim>\<open>_detect_from_headings\<close> as a whole: the \<^verbatim>\<open>except\<close> branch returns
  \<^verbatim>\<open>self._create_default_chapters()\<close>, whose own exception is not caught.
\<close>

definition detect_from_headings :: "document \<Rightarrow> error + chapter_dict list" where
  "detect_from_headings d =
     (case detect_from_headings_try d of
        Inl e \<Rightarrow> create_default_chapters d
      | Inr chapters \<Rightarrow> Inr chapters)"

section \<open>Orchestration: \<^verbatim>\<open>detect_chapters\<close>\<close>

text \<open>
  \<^verbatim>\<open>
  def detect_chapters(self):
      chapters = self._detect_from_bookmarks()
      if chapters:
          self.detection_method = 'bookmarks'
          return chapters
      chapters = self._detect_from_headings()
      self.detection_method = 'headings'
      return chapters
  \<close>
  The object is its file and the attribute \<^verbatim>\<open>detection_method\<close>, which \<^verbatim>\<open>__init__\<close> sets to
  \<^verbatim>\<open>None\<close>. \<open>detect_chapters\<close> returns the result, or the exception that leaves it, with the
  object as the call leaves it.
\<close>

record splitter =
  pdf_path :: document
  detection_method :: "string option"

definition init :: "document \<Rightarrow> splitter" where
  "init d = \<lparr>pdf_path = d, detection_method = None\<rparr>"

definition detect_chapters :: "splitter \<Rightarrow> (error + chapter_dict list) \<times> splitter" where
  "detect_chapters self =
     (let chapters = detect_from_bookmarks (pdf_path self) in
      if chapters \<noteq> [] then (Inr chapters, self\<lparr>detection_method := Some ''bookmarks''\<rparr>)
      else
        (case detect_from_headings (pdf_path self) of
           Inl e \<Rightarrow> (Inl e, self)
         | Inr chapters' \<Rightarrow> (Inr chapters', self\<lparr>detection_method := Some ''headings''\<rparr>)))"

section \<open>Characterisations\<close>

text \<open>
  What the loops compute, stated without the loops; the lemmas below relate each of these
  to the function it describes.
\<close>

text \<open>The value \<^verbatim>\<open>_calculate_end_pages\<close> leaves at index \<open>i\<close>, read off the list it was given.\<close>

definition resolved :: "chapter_dict list \<Rightarrow> int \<Rightarrow> nat \<Rightarrow> chapter_dict" where
  "resolved chapters total_pages i =
     (chapters ! i)\<lparr>end_page :=
        Some (if i + 1 < length chapters then start_page (chapters ! (i + 1)) - 1
              else total_pages - 1)\<rparr>"

text \<open>
  The fixed partition of \<open>total_pages\<close> pages into chunks of 20: chunk \<open>k\<close> (counted from 0)
  is titled with the number \<open>k + 1\<close>, starts at page \<open>20 k\<close> and ends at page \<open>20 k + 19\<close> or
  at the last page.
\<close>

definition fixed_chunk :: "nat \<Rightarrow> nat \<Rightarrow> chapter_dict" where
  "fixed_chunk total_pages k =
     \<lparr>title = ''Section '' @ str_nat (k + 1), full_title = ''Section '' @ str_nat (k + 1),
      parent = [], start_page = 20 * int k,
      end_page = Some (min (20 * int k + 19) (int total_pages - 1)),
      chapter_num = k + 1, font_size = None, level = 0\<rparr>"

definition fixed_chunks :: "nat \<Rightarrow> chapter_dict list" where
  "fixed_chunks total_pages = map (fixed_chunk total_pages) [0..<(total_pages + 19) div 20]"

text \<open>
  The pages of the leaves of an outline whose destination resolves, in pre-order: the order
  in which the outline lists them.
\<close>

fun leaf_pages :: "outline_item list \<Rightarrow> int list" where
  "leaf_pages [] = []"
| "leaf_pages (OutlineItem ttl dest act kids # items) =
     (if kids \<noteq> [] then leaf_pages kids
      else (case get_bookmark_page (OutlineItem ttl dest act kids) of
              Some p \<Rightarrow> [int p]
            | None \<Rightarrow> [])) @ leaf_pages items"

text \<open>
  Invariants of the heading scan on its loop state: the numbers given so far are 1, 2, ...
  and the counter is the next one; the start pages so far ascend and none is beyond the
  page being scanned.
\<close>

definition numbered :: "chapter_dict list \<times> nat \<Rightarrow> bool" where
  "numbered st =
     (snd st = Suc (length (fst st)) \<and> map chapter_num (fst st) = [1..<snd st])"

definition ascending_upto :: "nat \<Rightarrow> chapter_dict list \<times> nat \<Rightarrow> bool" where
  "ascending_upto k st =
     (sorted (map start_page (fst st)) \<and> list_all (\<lambda>c. start_page c \<le> int k) (fst st))"

text \<open>The condition under which the scan appends a candidate for a span.\<close>

definition qualifies :: "real \<Rightarrow> span \<Rightarrow> bool" where
  "qualifies heading_threshold sp =
     (span_size sp \<ge> heading_threshold \<and> is_chapter_heading (strip (span_text sp)))"

text \<open>
  \<^verbatim>\<open>str.isascii\<close>: every code point of the text is below 128. This is the domain on which the
  character functions above are those of Python.
\<close>

definition isascii :: "string \<Rightarrow> bool" where
  "isascii s = list_all (\<lambda>c. (of_char c :: nat) < 128) s"

section \<open>Example documents\<close>

definition leaf :: "string \<Rightarrow> nat \<Rightarrow> outline_item" where
  "leaf t p = OutlineItem t (Some [PageObj p]) None []"

text \<open>Seven pages, an empty outline, and \<^verbatim>\<open>fitz.open\<close> raises.\<close>

definition doc7 :: document where
  "doc7 = \<lparr>pikepdf_open = Some \<lparr>num_pages = 7, outline_root = Some []\<rparr>, fitz_open = None\<rparr>"

text \<open>A file that neither library can open.\<close>

definition doc_unreadable :: document where
  "doc_unreadable = \<lparr>pikepdf_open = None, fitz_open = None\<rparr>"

definition doc45 :: document where
  "doc45 = \<lparr>pikepdf_open = Some \<lparr>num_pages = 45, outline_root = Some []\<rparr>, fitz_open = None\<rparr>"

text \<open>An outline that lists a chapter on page 5 before a chapter on page 0.\<close>

definition doc_unsorted :: document where
  "doc_unsorted =
     \<lparr>pikepdf_open = Some \<lparr>num_pages = 15, outline_root = Some [leaf ''B'' 5, leaf ''A'' 0]\<rparr>,
      fitz_open = None\<rparr>"

text \<open>No outline, and one page of body text that is no heading.\<close>

definition quiet_pages :: fitz_doc where
  "quiet_pages = [[Some [[\<lparr>span_text = ''plain body text'', span_size = 10\<rparr>]], None]]"

definition doc_quiet :: document where
  "doc_quiet =
     \<lparr>pikepdf_open = Some \<lparr>num_pages = 7, outline_root = Some []\<rparr>,
      fitz_open = Some quiet_pages\<rparr>"

text \<open>Two parts with three chapters, and a heading on the fourth page.\<close>

definition parts_outline :: "outline_item list" where
  "parts_outline =
     [OutlineItem ''Part I'' None None [leaf ''ChapterA'' 0, leaf ''ChapterB'' 5],
      OutlineItem ''Part II'' None None [leaf ''ChapterC'' 10]]"

definition heading_pages :: fitz_doc where
  "heading_pages =
     [[], [], [],
      [Some [[\<lparr>span_text = ''Chapter 1'', span_size = 20\<rparr>],
             [\<lparr>span_text = ''plain body text'', span_size = 10\<rparr>]]],
      []]"

definition doc_parts :: document where
  "doc_parts =
     \<lparr>pikepdf_open = Some \<lparr>num_pages = 15, outline_root = Some parts_outline\<rparr>,
      fitz_open = Some heading_pages\<rparr>"

text \<open>A leaf whose destination is no page of the document, between two leaves that resolve.\<close>

definition broken_leaf :: outline_item where
  "broken_leaf = OutlineItem ''Lost'' (Some [NotAPage]) (Some [PageObj 3]) []"

definition doc_broken :: document where
  "doc_broken =
     \<lparr>pikepdf_open = Some \<lparr>num_pages = 9,
        outline_root = Some [leaf ''A'' 0, broken_leaf, leaf ''B'' 5]\<rparr>,
      fitz_open = None\<rparr>"

text \<open>Eleven spans on two pages: sizes 24, 18 and nine times 12.\<close>

definition sample_pages :: fitz_doc where
  "sample_pages =
     [[Some [[\<lparr>span_text = ''Title'', span_size = 24\<rparr>, \<lparr>span_text = ''a'', span_size = 12\<rparr>,
              \<lparr>span_text = ''b'', span_size = 12\<rparr>, \<lparr>span_text = ''c'', span_size = 12\<rparr>],
             [\<lparr>span_text = ''d'', span_size = 12\<rparr>, \<lparr>span_text = ''e'', span_size = 12\<rparr>,
              \<lparr>span_text = ''f'', span_size = 12\<rparr>]], None],
      [Some [[\<lparr>span_text = ''Heading'', span_size = 18\<rparr>, \<lparr>span_text = ''g'', span_size = 12\<rparr>,
              \<lparr>span_text = ''h'', span_size = 12\<rparr>, \<lparr>span_text = ''i'', span_size = 12\<rparr>]]]]"

section \<open>The language of a regular expression\<close>

text \<open>
  The words an expression denotes, against which the derivative matcher is justified, and a
  syntactic sufficient condition for every word of an expression to contain a character of a
  given class.
\<close>

inductive_set star_lang :: "string set \<Rightarrow> string set" for A :: "string set" where
  star_nil: "[] \<in> star_lang A"
| star_step: "u \<in> A \<Longrightarrow> v \<in> star_lang A \<Longrightarrow> u @ v \<in> star_lang A"

primrec lang :: "regex \<Rightarrow> string set" where
  "lang Never = {}"
| "lang Empty = {[]}"
| "lang (Class p) = {[c] | c. p c}"
| "lang (Cat r s) = {u @ v | u v. u \<in> lang r \<and> v \<in> lang s}"
| "lang (Alt r s) = lang r \<union> lang s"
| "lang (Star r) = star_lang (lang r)"

primrec needs :: "(char \<Rightarrow> bool) \<Rightarrow> regex \<Rightarrow> bool" where
  "needs P Never = True"
| "needs P Empty = False"
| "needs P (Class p) = (\<forall>c. p c \<longrightarrow> P c)"
| "needs P (Cat r s) = (needs P r \<or> needs P s)"
| "needs P (Alt r s) = (needs P r \<and> needs P s)"
| "needs P (Star r) = False"

section \<open>Lemmas on boundary resolution\<close>

lemma length_end_pages_step [simp]:
  "length (end_pages_step total_pages chapters i) = length chapters"
  by (simp add: end_pages_step_def)

lemma end_pages_loop_invariant:
  "k \<le> length chapters \<Longrightarrow>
   foldl (end_pages_step total_pages) chapters [0..<k] =
     map (resolved chapters total_pages) [0..<k] @ drop k chapters"
proof (induction k)
  case 0
  then show ?case by simp
next
  case (Suc k)
  then have k: "k < length chapters" by simp
  let ?done = "map (resolved chapters total_pages) [0..<k]"
  have split: "drop k chapters = chapters ! k # drop (Suc k) chapters"
    using k by (simp add: Cons_nth_drop_Suc)
  have len: "length ?done = k" by simp
  have at_k: "(?done @ drop k chapters) ! k = chapters ! k"
    using k by (simp add: nth_append)
  have at_Suc: "Suc k < length chapters \<Longrightarrow> (?done @ drop k chapters) ! Suc k = chapters ! Suc k"
    by (simp add: nth_append)
  have upd: "(?done @ drop k chapters)[k := v] = ?done @ v # drop (Suc k) chapters" for v
    using len split by (simp add: list_update_append)
  have "foldl (end_pages_step total_pages) chapters [0..<Suc k] =
        end_pages_step total_pages (?done @ drop k chapters) k"
    using Suc by simp
  also have "\<dots> = ?done @ resolved chapters total_pages k # drop (Suc k) chapters"
  proof (cases "Suc k < length chapters")
    case True
    then show ?thesis
      using k at_k at_Suc upd by (simp add: end_pages_step_def resolved_def)
  next
    case False
    then show ?thesis
      using k at_k upd by (simp add: end_pages_step_def resolved_def)
  qed
  finally show ?case by simp
qed

lemma calculate_end_pages_closed_form:
  "calculate_end_pages chapters total_pages =
     map (resolved chapters total_pages) [0..<length chapters]"
  using end_pages_loop_invariant [of "length chapters" chapters total_pages]
  by (simp add: calculate_end_pages_def)

lemma length_calculate_end_pages [simp]:
  "length (calculate_end_pages chapters total_pages) = length chapters"
  by (simp add: calculate_end_pages_closed_form)

lemma start_page_calculate_end_pages [simp]:
  "map start_page (calculate_end_pages chapters total_pages) = map start_page chapters"
  by (rule nth_equalityI) (simp_all add: calculate_end_pages_closed_form resolved_def)

lemma chapter_num_calculate_end_pages [simp]:
  "map chapter_num (calculate_end_pages chapters total_pages) = map chapter_num chapters"
  by (rule nth_equalityI) (simp_all add: calculate_end_pages_closed_form resolved_def)

section \<open>Lemmas on the default chapters\<close>

lemma py_range_closed_form:
  "0 < step \<Longrightarrow>
   py_range i stop step = map (\<lambda>k. i + step * k) [0..<(stop - i + (step - 1)) div step]"
proof (induction i stop step rule: py_range.induct)
  case (1 i stop step)
  show ?case
  proof (cases "i < stop")
    case False
    then have "(stop - i + (step - 1)) div step = 0"
      using "1.prems" by simp
    with False show ?thesis by (simp add: py_range.simps)
  next
    case True
    let ?m = "(stop - (i + step) + (step - 1)) div step"
    have "stop - i + (step - 1) = (stop - (i + step) + (step - 1)) + step \<or>
          (stop - i \<le> step \<and> stop - (i + step) = 0)"
      using True "1.prems" by linarith
    then have count: "(stop - i + (step - 1)) div step = Suc ?m"
    proof
      assume "stop - i + (step - 1) = (stop - (i + step) + (step - 1)) + step"
      then have "(stop - i + (step - 1)) div step =
          ((stop - (i + step) + (step - 1)) + step) div step"
        by (simp only:)
      also have "\<dots> = Suc ?m"
        using "1.prems" by (simp only: div_add_self2)
      finally show ?thesis .
    next
      assume a: "stop - i \<le> step \<and> stop - (i + step) = 0"
      then have m0: "?m = 0" using "1.prems" by simp
      have "step \<le> stop - i + (step - 1)" "stop - i + (step - 1) < 2 * step"
        using a True "1.prems" by linarith+
      then have d1: "(stop - i + (step - 1)) div step = Suc 0"
        by (metis One_nat_def Suc_1 div_nat_eqI mult.commute mult_Suc nat_mult_1_right)
      show ?thesis by (simp only: m0 d1)
    qed
    have IH: "py_range (i + step) stop step = map (\<lambda>k. i + step + step * k) [0..<?m]"
      using "1.IH" True "1.prems" by simp
    have "py_range i stop step = i # py_range (i + step) stop step"
      using True "1.prems" by (simp add: py_range.simps)
    also have "\<dots> = i # map (\<lambda>k. i + step + step * k) [0..<?m]"
      by (simp add: IH)
    also have "\<dots> = map (\<lambda>k. i + step * k) [0..<Suc ?m]"
      by (simp add: upt_conv_Cons map_Suc_upt [symmetric] del: upt_Suc)
    finally show ?thesis by (simp only: count)
  qed
qed

lemma default_loop_invariant:
  "foldl (default_step total_pages) [] (map (\<lambda>k. 0 + pages_per_chapter * k) [0..<m]) =
     map (fixed_chunk total_pages) [0..<m]"
proof (induction m)
  case 0
  then show ?case by simp
next
  case (Suc m)
  then show ?case
    by (simp add: default_step_def fixed_chunk_def pages_per_chapter_def)
qed

lemma create_default_chapters_closed_form:
  "create_default_chapters d =
     (case pikepdf_open d of
        None \<Rightarrow> Inl PikepdfError
      | Some pdf \<Rightarrow> Inr (fixed_chunks (num_pages pdf)))"
proof (cases "pikepdf_open d")
  case None
  then show ?thesis by (simp add: create_default_chapters_def)
next
  case (Some pdf)
  have "py_range 0 (num_pages pdf) pages_per_chapter =
        map (\<lambda>k. 0 + pages_per_chapter * k) [0..<(num_pages pdf + 19) div 20]"
    using py_range_closed_form [of pages_per_chapter 0 "num_pages pdf"]
    by (simp add: pages_per_chapter_def)
  then show ?thesis
    using Some default_loop_invariant [of "num_pages pdf" "(num_pages pdf + 19) div 20"]
    by (simp add: create_default_chapters_def fixed_chunks_def Let_def)
qed

section \<open>Lemmas on the bookmark path\<close>

lemma extract_loop_container:
  "kids \<noteq> [] \<Longrightarrow>
   extract_loop (OutlineItem ttl dest act kids # items) parent_title lvl chapters num =
     extract_loop items parent_title lvl
       (chapters @ extract_loop kids (with_parent parent_title ttl) (lvl + 1) [] num)
       (num + length (extract_loop kids (with_parent parent_title ttl) (lvl + 1) [] num))"
  by (simp add: Let_def)

lemma extract_loop_leaf:
  "get_bookmark_page (OutlineItem ttl dest act []) = Some p \<Longrightarrow>
   extract_loop (OutlineItem ttl dest act [] # items) parent_title lvl chapters num =
     extract_loop items parent_title lvl
       (chapters @
          [\<lparr>title = ttl, full_title = with_parent parent_title ttl, parent = parent_title,
            start_page = int p, end_page = None, chapter_num = num, font_size = None,
            level = lvl\<rparr>])
       (num + 1)"
  by (simp add: Let_def)

lemma extract_loop_unresolved:
  "get_bookmark_page (OutlineItem ttl dest act []) = None \<Longrightarrow>
   extract_loop (OutlineItem ttl dest act [] # items) parent_title lvl chapters num =
     extract_loop items parent_title lvl chapters num"
  by (simp add: Let_def)

lemma extract_loop_induct [case_names Nil Container Leaf Unresolved]:
  assumes Nil: "\<And>parent_title lvl chapters num. P [] parent_title lvl chapters num"
    and Container: "\<And>ttl dest act kids items parent_title lvl chapters num.
      kids \<noteq> [] \<Longrightarrow>
      P kids (with_parent parent_title ttl) (lvl + 1) [] num \<Longrightarrow>
      P items parent_title lvl
        (chapters @ extract_loop kids (with_parent parent_title ttl) (lvl + 1) [] num)
        (num + length (extract_loop kids (with_parent parent_title ttl) (lvl + 1) [] num)) \<Longrightarrow>
      P (OutlineItem ttl dest act kids # items) parent_title lvl chapters num"
    and Leaf: "\<And>ttl dest act items parent_title lvl chapters num p.
      get_bookmark_page (OutlineItem ttl dest act []) = Some p \<Longrightarrow>
      P items parent_title lvl
        (chapters @
           [\<lparr>title = ttl, full_title = with_parent parent_title ttl, parent = parent_title,
             start_page = int p, end_page = None, chapter_num = num, font_size = None,
             level = lvl\<rparr>])
        (num + 1) \<Longrightarrow>
      P (OutlineItem ttl dest act [] # items) parent_title lvl chapters num"
    and Unresolved: "\<And>ttl dest act items parent_title lvl chapters num.
      get_bookmark_page (OutlineItem ttl dest act []) = None \<Longrightarrow>
      P items parent_title lvl chapters num \<Longrightarrow>
      P (OutlineItem ttl dest act [] # items) parent_title lvl chapters num"
  shows "P items parent_title lvl chapters num"
proof (induction items parent_title lvl chapters num rule: extract_loop.induct)
  case (1 parent_title lvl chapters num)
  show ?case by (rule Nil)
next
  case (2 ttl dest act kids items parent_title lvl chapters num)
  show ?case
  proof (cases "kids = []")
    case False
    then have pos: "0 < length kids" by simp
    have kids: "P kids (with_parent parent_title ttl) (lvl + 1) [] num"
      by (rule "2.IH"(1) [OF refl refl pos refl])
    have rest: "P items parent_title lvl
        (chapters @ extract_loop kids (with_parent parent_title ttl) (lvl + 1) [] num)
        (num + length (extract_loop kids (with_parent parent_title ttl) (lvl + 1) [] num))"
      by (rule "2.IH"(2) [OF refl refl pos refl refl])
    show ?thesis by (rule Container [OF False kids rest])
  next
    case True
    then have npos: "\<not> 0 < length kids" by simp
    show ?thesis
    proof (cases "get_bookmark_page (OutlineItem ttl dest act kids)")
      case None
      have "P items parent_title lvl chapters num"
        by (rule "2.IH"(3) [OF refl refl npos None])
      then show ?thesis
        using None True Unresolved by simp
    next
      case (Some p)
      have "P items parent_title lvl
        (chapters @
           [\<lparr>title = ttl, full_title = with_parent parent_title ttl, parent = parent_title,
             start_page = int p, end_page = None, chapter_num = num, font_size = None,
             level = lvl\<rparr>])
        (num + 1)"
        by (rule "2.IH"(4) [OF refl refl npos Some])
      then show ?thesis
        using Some True Leaf by simp
    qed
  qed
qed

declare extract_loop.simps(2) [simp del]

lemma leaf_pages_container:
  "kids \<noteq> [] \<Longrightarrow>
   leaf_pages (OutlineItem ttl dest act kids # items) = leaf_pages kids @ leaf_pages items"
  by simp

lemma extract_loop_start_pages:
  "map start_page (extract_loop items parent_title lvl chapters num) =
     map start_page chapters @ leaf_pages items"
proof (induction items parent_title lvl chapters num rule: extract_loop_induct)
  case (Nil parent_title lvl chapters num)
  show ?case by simp
next
  case (Container ttl dest act kids items parent_title lvl chapters num)
  then show ?case by (simp add: extract_loop_container)
next
  case (Leaf ttl dest act items parent_title lvl chapters num p)
  then show ?case by (simp add: extract_loop_leaf)
next
  case (Unresolved ttl dest act items parent_title lvl chapters num)
  then show ?case by (simp add: extract_loop_unresolved)
qed

lemma extract_loop_length:
  "length (extract_loop items parent_title lvl chapters num) =
     length chapters + length (leaf_pages items)"
  using arg_cong [OF extract_loop_start_pages, of length items parent_title lvl chapters num]
  by simp

lemma upt_join: "[a..<a + m] @ [a + m..<a + m + n] = [a..<a + (m + n)]" for a m n :: nat
  by (metis add.assoc le_add1 upt_add_eq_append)

lemma extract_loop_chapter_nums:
  "map chapter_num (extract_loop items parent_title lvl chapters num) =
     map chapter_num chapters @ [num..<num + length (leaf_pages items)]"
proof (induction items parent_title lvl chapters num rule: extract_loop_induct)
  case (Nil parent_title lvl chapters num)
  show ?case by simp
next
  case (Container ttl dest act kids items parent_title lvl chapters num)
  then show ?case
    using upt_join [of num "length (leaf_pages kids)" "length (leaf_pages items)"]
    by (simp add: extract_loop_container extract_loop_length)
next
  case (Leaf ttl dest act items parent_title lvl chapters num p)
  then show ?case
    using upt_join [of num 1 "length (leaf_pages items)"]
    by (simp add: extract_loop_leaf upt_conv_Cons)
next
  case (Unresolved ttl dest act items parent_title lvl chapters num)
  then show ?case by (simp add: extract_loop_unresolved)
qed

lemma extract_loop_prefix:
  "extract_loop items parent_title lvl (pre @ chapters) num =
     pre @ extract_loop items parent_title lvl chapters num"
proof (induction items parent_title lvl chapters num arbitrary: pre rule: extract_loop_induct)
  case (Nil parent_title lvl chapters num)
  show ?case by simp
next
  case (Container ttl dest act kids items parent_title lvl chapters num)
  show ?case
    using Container.hyps Container.IH(2) by (simp add: extract_loop_container)
next
  case (Leaf ttl dest act items parent_title lvl chapters num p)
  then show ?case by (simp add: extract_loop_leaf)
next
  case (Unresolved ttl dest act items parent_title lvl chapters num)
  then show ?case by (simp add: extract_loop_unresolved)
qed

lemma extract_loop_append:
  "extract_loop (xs @ ys) parent_title lvl chapters num =
     extract_loop ys parent_title lvl (extract_loop xs parent_title lvl chapters num)
       (num + length (leaf_pages xs))"
proof (induction xs parent_title lvl chapters num rule: extract_loop_induct)
  case (Nil parent_title lvl chapters num)
  show ?case by simp
next
  case (Container ttl dest act kids items parent_title lvl chapters num)
  then show ?case
    by (simp add: extract_loop_container extract_loop_length add.assoc)
next
  case (Leaf ttl dest act items parent_title lvl chapters num p)
  then show ?case by (simp add: extract_loop_leaf)
next
  case (Unresolved ttl dest act items parent_title lvl chapters num)
  then show ?case by (simp add: extract_loop_unresolved)
qed

lemma extract_loop_skip_unresolved:
  assumes "get_bookmark_page item = None" and "children item = []"
  shows "extract_loop (xs @ item # ys) parent_title lvl chapters num =
         extract_loop (xs @ ys) parent_title lvl chapters num"
proof -
  obtain ttl dest act where item: "item = OutlineItem ttl dest act []"
    using assms(2) by (cases item) simp
  show ?thesis
    using assms(1) unfolding item
    by (simp add: extract_loop_append extract_loop_unresolved)
qed

section \<open>Lemmas on the heading path\<close>

lemma foldl_invariant:
  assumes "P s" and "\<And>s x. x \<in> set xs \<Longrightarrow> P s \<Longrightarrow> P (f s x)"
  shows "P (foldl f s xs)"
  using assms by (induction xs arbitrary: s) simp_all

lemma foldl_unchanged:
  assumes "\<And>x. x \<in> set xs \<Longrightarrow> f s x = s"
  shows "foldl f s xs = s"
  using assms by (induction xs) simp_all

subsection \<open>Numbering on the heading path\<close>

lemma numbered_scan_span:
  "numbered st \<Longrightarrow> numbered (scan_span heading_threshold page_num st sp)"
  by (auto simp: numbered_def scan_span_def Let_def)

lemma numbered_scan_page:
  "numbered st \<Longrightarrow> numbered (scan_page doc heading_threshold st page_num)"
  unfolding scan_page_def by (rule foldl_invariant) (simp_all add: numbered_scan_span)

lemma numbered_scan_pages: "numbered (scan_pages doc heading_threshold)"
  unfolding scan_pages_def
proof (rule foldl_invariant)
  show "numbered ([], 1)" by (simp add: numbered_def)
next
  fix s x
  assume "numbered s"
  then show "numbered (scan_page doc heading_threshold s x)"
    by (rule numbered_scan_page)
qed

subsection \<open>Order of start pages on the heading path\<close>

lemma ascending_upto_mono: "ascending_upto k st \<Longrightarrow> k \<le> k' \<Longrightarrow> ascending_upto k' st"
  by (auto simp: ascending_upto_def list_all_iff)

lemma ascending_scan_span:
  "ascending_upto page_num st \<Longrightarrow>
   ascending_upto page_num (scan_span heading_threshold page_num st sp)"
  by (auto simp: ascending_upto_def scan_span_def Let_def sorted_append list_all_iff)

lemma ascending_scan_page:
  "ascending_upto page_num st \<Longrightarrow>
   ascending_upto page_num (scan_page doc heading_threshold st page_num)"
  unfolding scan_page_def by (rule foldl_invariant) (simp_all add: ascending_scan_span)

lemma ascending_scan_loop:
  "ascending_upto k (foldl (scan_page doc heading_threshold) ([], 1) [0..<k])"
proof (induction k)
  case 0
  show ?case by (simp add: ascending_upto_def)
next
  case (Suc k)
  have "ascending_upto k
      (scan_page doc heading_threshold (foldl (scan_page doc heading_threshold) ([], 1) [0..<k]) k)"
    using Suc by (rule ascending_scan_page)
  then show ?case
    by (simp add: ascending_upto_mono [of k _ "Suc k"])
qed

lemma sorted_scan_pages: "sorted (map start_page (fst (scan_pages doc heading_threshold)))"
  using ascending_scan_loop [of "length doc" doc heading_threshold]
  by (simp add: scan_pages_def ascending_upto_def)

subsection \<open>A scan without qualifying spans\<close>

lemma scan_span_unqualified:
  "\<not> qualifies heading_threshold sp \<Longrightarrow> scan_span heading_threshold page_num st sp = st"
  by (auto simp: qualifies_def scan_span_def Let_def)

lemma scan_pages_unqualified:
  assumes "\<And>page_num sp. page_num < length doc \<Longrightarrow> sp \<in> set (page_spans (doc ! page_num)) \<Longrightarrow>
             \<not> qualifies heading_threshold sp"
  shows "scan_pages doc heading_threshold = ([], 1)"
  unfolding scan_pages_def
proof (rule foldl_unchanged)
  fix page_num
  assume "page_num \<in> set [0..<length doc]"
  then have "page_num < length doc" by simp
  then show "scan_page doc heading_threshold ([], 1) page_num = ([], 1)"
    unfolding scan_page_def
    by (intro foldl_unchanged scan_span_unqualified assms)
qed

subsection \<open>The font-size sample and the threshold\<close>

lemma sample_loop:
  "k \<le> length doc \<Longrightarrow>
   foldl (\<lambda>font_sizes page_num. font_sizes @ map span_size (page_spans (doc ! page_num)))
     [] [0..<k] =
   map span_size (concat (map page_spans (take k doc)))"
proof (induction k)
  case 0
  show ?case by simp
next
  case (Suc k)
  then show ?case by (simp add: take_Suc_conv_app_nth)
qed

lemma analyze_font_sizes_sample:
  "analyze_font_sizes doc = map span_size (concat (map page_spans (take 20 doc)))"
proof -
  have "take (min 20 (length doc)) doc = take 20 doc"
    by (simp add: min_def)
  then show ?thesis
    using sample_loop [of "min 20 (length doc)" doc]
    by (simp add: analyze_font_sizes_def)
qed

lemma tenth_floor: "nat \<lfloor>real n / 10\<rfloor> = n div 10"
  using floor_divide_of_nat_eq [of n 10, where ?'a = real] by simp

lemma calculate_heading_threshold_rank:
  "calculate_heading_threshold font_sizes =
     (if font_sizes = [] then 14 else rev (sort font_sizes) ! (length font_sizes div 10))"
proof (cases "font_sizes = []")
  case True
  then show ?thesis by (simp add: calculate_heading_threshold_def)
next
  case False
  then have "length font_sizes div 10 < length font_sizes" by simp
  with False show ?thesis
    by (simp add: calculate_heading_threshold_def Let_def tenth_floor)
qed

section \<open>Evaluations on the example documents\<close>

lemmas bookmark_defs = detect_from_bookmarks_def detect_from_bookmarks_try_def
  extract_nested_bookmarks_def extract_loop.simps(2) leaf_def get_bookmark_page_def
  get_bookmark_page_try_def page_index_def with_parent_def Let_def

lemma doc7_bookmarks: "detect_from_bookmarks doc7 = []"
  by (simp add: doc7_def detect_from_bookmarks_def detect_from_bookmarks_try_def)

lemma doc7_headings: "detect_from_headings_try doc7 = Inl FitzError"
  by (simp add: doc7_def detect_from_headings_try_def)

lemma str_nat_digits:
  "str_nat (Suc 0) = ''1''" "str_nat (Suc (Suc 0)) = ''2''" "str_nat 3 = ''3''"
  using str_nat.simps [of "Suc 0"] str_nat.simps [of "Suc (Suc 0)"] str_nat.simps [of 3]
  by (simp_all add: ascii_digits_def)

lemma fixed_chunks_7:
  "fixed_chunks 7 =
     [\<lparr>title = ''Section 1'', full_title = ''Section 1'', parent = [], start_page = 0,
       end_page = Some 6, chapter_num = 1, font_size = None, level = 0\<rparr>]"
  by (simp add: fixed_chunks_def fixed_chunk_def str_nat_digits)

section \<open>Lemmas on the detection paths\<close>

lemma detect_from_bookmarks_start_pages:
  "pikepdf_open d = Some pdf \<Longrightarrow> outline_root pdf = Some items \<Longrightarrow>
   map start_page (detect_from_bookmarks d) = leaf_pages items"
  by (simp add: detect_from_bookmarks_def detect_from_bookmarks_try_def
      extract_nested_bookmarks_def extract_loop_start_pages)

lemma detect_from_headings_try_sorted:
  "detect_from_headings_try d = Inr chapters \<Longrightarrow> sorted (map start_page chapters)"
  by (auto simp: detect_from_headings_try_def Let_def sorted_scan_pages split: option.splits)

lemma parts_outline_leaf_pages: "leaf_pages parts_outline = [0, 5, 10]"
  by (simp add: parts_outline_def leaf_def get_bookmark_page_def get_bookmark_page_try_def
      page_index_def)

lemma extract_nested_bookmarks_numbered:
  "map chapter_num (extract_nested_bookmarks items start_num parent_title lvl) =
     [start_num..<start_num + length (leaf_pages items)]"
  by (simp add: extract_nested_bookmarks_def extract_loop_chapter_nums)

lemma extract_nested_bookmarks_length:
  "length (extract_nested_bookmarks items start_num parent_title lvl) = length (leaf_pages items)"
  by (simp add: extract_nested_bookmarks_def extract_loop_length)

lemma detect_from_bookmarks_numbered:
  "map chapter_num (detect_from_bookmarks d) = [1..<Suc (length (detect_from_bookmarks d))]"
proof -
  have "map chapter_num (extract_nested_bookmarks items 1 [] 0) =
      [1..<Suc (length (extract_nested_bookmarks items 1 [] 0))]" for items
    by (simp add: extract_nested_bookmarks_numbered extract_nested_bookmarks_length
        del: upt_Suc)
  then show ?thesis
    by (simp add: detect_from_bookmarks_def detect_from_bookmarks_try_def
        del: upt_Suc split: option.splits)
qed

lemma detect_from_headings_try_numbered:
  assumes "detect_from_headings_try d = Inr chapters"
  shows "map chapter_num chapters = [1..<Suc (length chapters)]"
proof -
  obtain doc where doc: "fitz_open d = Some doc"
    using assms by (auto simp: detect_from_headings_try_def split: option.splits)
  let ?st = "scan_pages doc (calculate_heading_threshold (analyze_font_sizes doc))"
  have chapters: "chapters = calculate_end_pages (fst ?st) (int (length doc))"
    using assms doc by (simp add: detect_from_headings_try_def Let_def)
  have "numbered ?st" by (rule numbered_scan_pages)
  then have "map chapter_num (fst ?st) = [1..<Suc (length (fst ?st))]"
    by (simp add: numbered_def)
  then show ?thesis by (simp add: chapters)
qed

lemma fixed_chunks_numbered:
  "map chapter_num (fixed_chunks total_pages) = [1..<Suc (length (fixed_chunks total_pages))]"
proof -
  have "map chapter_num (map (fixed_chunk total_pages) [0..<m]) = map Suc [0..<m]" for m
    by (simp add: fixed_chunk_def)
  then show ?thesis
    by (simp add: fixed_chunks_def map_Suc_upt del: map_map)
qed

lemma detect_chapters_numbered:
  assumes "fst (detect_chapters self) = Inr chapters"
  shows "map chapter_num chapters = [1..<Suc (length chapters)]"
proof (cases "detect_from_bookmarks (pdf_path self) = []")
  case False
  then have "chapters = detect_from_bookmarks (pdf_path self)"
    using assms by (simp add: detect_chapters_def Let_def)
  then show ?thesis by (simp add: detect_from_bookmarks_numbered)
next
  case True
  then have h: "detect_from_headings (pdf_path self) = Inr chapters"
    using assms by (simp add: detect_chapters_def Let_def split: sum.splits)
  show ?thesis
  proof (cases "detect_from_headings_try (pdf_path self)")
    case (Inr found)
    with h have "detect_from_headings_try (pdf_path self) = Inr chapters"
      by (simp add: detect_from_headings_def)
    then show ?thesis by (rule detect_from_headings_try_numbered)
  next
    case (Inl e)
    with h have "create_default_chapters (pdf_path self) = Inr chapters"
      by (simp add: detect_from_headings_def)
    then show ?thesis
      by (auto simp: create_default_chapters_closed_form fixed_chunks_numbered
          simp del: upt_Suc split: option.splits)
  qed
qed

lemma extract_nested_bookmarks_skip:
  "get_bookmark_page item = None \<Longrightarrow> children item = [] \<Longrightarrow>
   extract_nested_bookmarks (xs @ item # ys) start_num parent_title lvl =
   extract_nested_bookmarks (xs @ ys) start_num parent_title lvl"
  by (simp add: extract_nested_bookmarks_def extract_loop_skip_unresolved)

lemma broken_leaf_unresolved: "get_bookmark_page broken_leaf = None"
  by (simp add: broken_leaf_def get_bookmark_page_def get_bookmark_page_try_def page_index_def)

lemma doc_broken_chapters:
  "fst (detect_chapters (init doc_broken)) =
     Inr [\<lparr>title = ''A'', full_title = ''A'', parent = [], start_page = 0, end_page = Some 4,
            chapter_num = 1, font_size = None, level = 0\<rparr>,
          \<lparr>title = ''B'', full_title = ''B'', parent = [], start_page = 5, end_page = Some 8,
            chapter_num = 2, font_size = None, level = 0\<rparr>]"
  by (simp add: detect_chapters_def init_def doc_broken_def broken_leaf_def bookmark_defs
      calculate_end_pages_def end_pages_step_def upt_conv_Cons)

section \<open>Lemmas on the heading pattern test\<close>

lemmas char_defs = ascii_uppercase_def ascii_lowercase_def ascii_digits_def ascii_whitespace_def
  isupper_def isdigit_def isspace_def lower_char_def lower_def strip_def

lemmas heading_defs = is_chapter_heading_def patterns_def re_search_def dollar_def

lemma plain_text_no_heading: "\<not> is_chapter_heading (strip ''plain body text'')"
  by (simp add: heading_defs char_defs)

text \<open>The matcher decides the language of the expression.\<close>

lemma nullable_lang: "nullable r = ([] \<in> lang r)"
  by (induction r) (auto intro: star_nil)

lemma lang_CatI: "u \<in> lang r \<Longrightarrow> v \<in> lang s \<Longrightarrow> u @ v \<in> lang (Cat r s)"
  by auto

lemma star_lang_cons_split:
  "x \<in> star_lang A \<Longrightarrow> x = c # w \<Longrightarrow>
   \<exists>u v. w = u @ v \<and> c # u \<in> A \<and> v \<in> star_lang A"
proof (induction arbitrary: w rule: star_lang.induct)
  case star_nil
  then show ?case by simp
next
  case (star_step u v)
  show ?case
  proof (cases u)
    case Nil
    with star_step.prems have "v = c # w" by simp
    then show ?thesis by (rule star_step.IH)
  next
    case (Cons a u')
    with star_step.prems have "w = u' @ v" "c # u' = u" by simp_all
    with star_step.hyps show ?thesis by blast
  qed
qed

lemma star_lang_cons:
  "(c # w \<in> star_lang A) = (\<exists>u v. w = u @ v \<and> c # u \<in> A \<and> v \<in> star_lang A)"
proof
  assume "c # w \<in> star_lang A"
  then show "\<exists>u v. w = u @ v \<and> c # u \<in> A \<and> v \<in> star_lang A"
    by (rule star_lang_cons_split) simp
next
  assume "\<exists>u v. w = u @ v \<and> c # u \<in> A \<and> v \<in> star_lang A"
  then obtain u v where "w = u @ v" "c # u \<in> A" "v \<in> star_lang A" by blast
  then show "c # w \<in> star_lang A"
    using star_step [of "c # u" A v] by simp
qed

lemma deriv_lang: "(w \<in> lang (deriv c r)) = (c # w \<in> lang r)"
proof (induction r arbitrary: w)
  case (Cat r s)
  then show ?case
    by (auto simp: nullable_lang Cons_eq_append_conv)
next
  case (Star r)
  then show ?case
    by (auto simp: star_lang_cons)
qed auto

lemma match_all_lang: "match_all r s = (s \<in> lang r)"
  by (induction s arbitrary: r) (simp_all add: nullable_lang deriv_lang)

lemma match_prefix_lang: "match_prefix r s = (\<exists>u v. s = u @ v \<and> u \<in> lang r)"
proof (induction s arbitrary: r)
  case Nil
  show ?case by (simp add: nullable_lang)
next
  case (Cons c cs)
  have "match_prefix r (c # cs) =
      ([] \<in> lang r \<or> (\<exists>u v. cs = u @ v \<and> c # u \<in> lang r))"
    by (simp add: nullable_lang Cons.IH deriv_lang)
  also have "\<dots> = (\<exists>u v. c # cs = u @ v \<and> u \<in> lang r)"
    by (auto simp: Cons_eq_append_conv)
  finally show ?case .
qed

lemma star_lang_class: "list_all p w \<Longrightarrow> w \<in> star_lang {[c] | c. p c}"
proof (induction w)
  case Nil
  show ?case by (rule star_nil)
next
  case (Cons a w)
  then have "[a] \<in> {[c] | c. p c}" "w \<in> star_lang {[c] | c. p c}" by auto
  then have "[a] @ w \<in> star_lang {[c] | c. p c}" by (rule star_step)
  then show ?case by simp
qed

lemma at_least_class:
  "list_all p w \<Longrightarrow> n \<le> length w \<Longrightarrow> w \<in> lang (at_least n (Class p))"
proof (induction n arbitrary: w)
  case 0
  then show ?case by (simp add: star_lang_class)
next
  case (Suc n)
  then obtain a w' where w: "w = a # w'" by (cases w) auto
  with Suc have "[a] \<in> lang (Class p)" "w' \<in> lang (at_least n (Class p))" by auto
  then have "[a] @ w' \<in> lang (Cat (Class p) (at_least n (Class p)))"
    by (rule lang_CatI)
  then show ?case by (simp add: w)
qed

text \<open>
  A word of an expression that needs a character of a class has one; the lower-cased text
  has no upper-case letter, so the patterns that ask for one never match it.
\<close>

lemma needs_not_nullable: "needs P r \<Longrightarrow> \<not> nullable r"
  by (induction r) auto

lemma needs_deriv: "needs P r \<Longrightarrow> \<not> P c \<Longrightarrow> needs P (deriv c r)"
  by (induction r) (auto simp: needs_not_nullable)

lemma needs_no_prefix:
  "needs P r \<Longrightarrow> \<forall>c \<in> set s. \<not> P c \<Longrightarrow> \<not> match_prefix r s"
  by (induction s arbitrary: r) (auto simp: needs_not_nullable needs_deriv)

lemma needs_no_match:
  "needs P r \<Longrightarrow> \<forall>c \<in> set s. \<not> P c \<Longrightarrow> \<not> match_all r s"
  by (induction s arbitrary: r) (auto simp: needs_not_nullable needs_deriv)

lemma lower_char_not_upper: "\<not> isupper (lower_char c)"
  by (auto simp: char_defs)

lemma lower_not_upper: "\<forall>c \<in> set (lower s). \<not> isupper c"
  by (simp add: lower_def lower_char_not_upper)

lemma patterns_need_upper:
  "needs isupper (Cat (at_least 1 (Class isdigit))
      (Cat (literal ''.'') (Cat (at_least 1 (Class isspace)) (Class isupper))))"
  "needs isupper (Cat (Cat (Class isupper) (at_least 5 (Class (\<lambda>x. isupper x \<or> isspace x)))) dollar)"
  "needs isupper (Cat (literal ''Part'')
      (Cat (at_least 1 (Class isspace)) (at_least 1 (Class (\<lambda>x. x \<in> set ''IVX'' \<or> isdigit x)))))"
  "needs isupper (Cat (literal ''Section'')
      (Cat (at_least 1 (Class isspace)) (at_least 1 (Class isdigit))))"
  by (simp_all add: isupper_def ascii_uppercase_def)

lemma case_sensitive_patterns_dead:
  assumes "p \<in> set (tl patterns)"
  shows "\<not> re_search p (lower s)"
proof -
  note prefix = needs_no_prefix [OF _ lower_not_upper]
  note whole = needs_no_match [OF _ lower_not_upper]
  from assms consider
      "p = Caret (Cat (at_least 1 (Class isdigit))
        (Cat (literal ''.'') (Cat (at_least 1 (Class isspace)) (Class isupper))))"
    | "p = CaretDollar (Cat (Class isupper) (at_least 5 (Class (\<lambda>x. isupper x \<or> isspace x))))"
    | "p = Caret (Cat (literal ''Part'')
        (Cat (at_least 1 (Class isspace))
           (at_least 1 (Class (\<lambda>x. x \<in> set ''IVX'' \<or> isdigit x)))))"
    | "p = Caret (Cat (literal ''Section'')
        (Cat (at_least 1 (Class isspace)) (at_least 1 (Class isdigit))))"
    by (auto simp: patterns_def)
  then show ?thesis
  proof cases
    case 1
    then show ?thesis
      using prefix [OF patterns_need_upper(1)] by (simp add: re_search_def)
  next
    case 2
    then show ?thesis
      using whole [OF patterns_need_upper(2)] by (simp add: re_search_def)
  next
    case 3
    then show ?thesis
      using prefix [OF patterns_need_upper(3)] by (simp add: re_search_def)
  next
    case 4
    then show ?thesis
      using prefix [OF patterns_need_upper(4)] by (simp add: re_search_def)
  qed
qed

lemma is_chapter_heading_effective:
  "is_chapter_heading s =
     (re_search (hd patterns) (lower s)
      \<or> (length s < 100 \<and> length s > 3 \<and> isupper (hd s)))"
proof -
  have "set patterns = insert (hd patterns) (set (tl patterns))"
    by (simp add: patterns_def)
  then have "list_ex (\<lambda>pattern. re_search pattern (lower s)) patterns =
      (re_search (hd patterns) (lower s)
       \<or> (\<exists>p \<in> set (tl patterns). re_search p (lower s)))"
    by (simp add: list_ex_iff)
  then have "list_ex (\<lambda>pattern. re_search pattern (lower s)) patterns =
      re_search (hd patterns) (lower s)"
    by (simp add: case_sensitive_patterns_dead)
  then show ?thesis
    by (simp add: is_chapter_heading_def Let_def)
qed

lemma chapter_pattern_needs_digit:
  assumes "\<forall>c \<in> set s. \<not> isdigit c"
  shows "\<not> re_search (hd patterns) s"
proof -
  have "needs isdigit (Cat (literal ''chapter'')
      (Cat (at_least 1 (Class isspace)) (at_least 1 (Class isdigit))))"
    by simp
  from needs_no_prefix [OF this assms] show ?thesis
    by (simp add: patterns_def re_search_def)
qed

lemma lower_char_digit: "isdigit (lower_char c) = isdigit c"
  by (auto simp: char_defs)

lemma capitals_only_by_catch_all:
  assumes "\<forall>c \<in> set s. isupper c \<or> isspace c"
  shows "is_chapter_heading s = (length s < 100 \<and> length s > 3 \<and> isupper (hd s))"
proof -
  have "\<not> isdigit c" if "isupper c \<or> isspace c" for c
    using that by (auto simp: char_defs)
  with assms have "\<forall>c \<in> set (lower s). \<not> isdigit c"
    by (auto simp: lower_def lower_char_digit)
  then have "\<not> re_search (hd patterns) (lower s)"
    by (rule chapter_pattern_needs_digit)
  then show ?thesis by (simp add: is_chapter_heading_effective)
qed

lemma capitals_match_own_pattern:
  assumes "isupper c" and "list_all (\<lambda>x. isupper x \<or> isspace x) cs" and "5 \<le> length cs"
  shows "re_search (patterns ! 2) (c # cs)"
proof -
  have "cs \<in> lang (at_least 5 (Class (\<lambda>x. isupper x \<or> isspace x)))"
    using assms(2,3) by (rule at_least_class)
  moreover have "[c] \<in> lang (Class isupper)"
    using assms(1) by simp
  ultimately have "[c] @ cs \<in>
      lang (Cat (Class isupper) (at_least 5 (Class (\<lambda>x. isupper x \<or> isspace x))))"
    by (intro lang_CatI)
  moreover have "[] \<in> lang dollar"
    by (simp add: dollar_def)
  ultimately have "([c] @ cs) @ [] \<in> lang (Cat (Cat (Class isupper)
      (at_least 5 (Class (\<lambda>x. isupper x \<or> isspace x)))) dollar)"
    by (rule lang_CatI)
  then show ?thesis
    by (simp add: patterns_def re_search_def match_all_lang)
qed


lemma first_class_prefix:
  assumes "\<not> p c"
  shows "\<not> match_prefix (Cat (Cat (Class p) r) t) (c # cs)"
proof -
  have "needs (\<lambda>x. False) (Cat (Cat Never r) t)" by simp
  then have "\<not> match_prefix (Cat (Cat Never r) t) cs"
    by (rule needs_no_prefix) simp
  with assms show ?thesis by simp
qed

lemma numbered_starts_with_digit:
  assumes "re_search (patterns ! 1) s"
  shows "\<exists>d rest. s = d # rest \<and> isdigit d"
proof (cases s)
  case Nil
  with assms show ?thesis by (simp add: patterns_def re_search_def)
next
  case (Cons d rest)
  have "isdigit d"
  proof (rule ccontr)
    assume "\<not> isdigit d"
    then have "\<not> match_prefix (Cat (Cat (Class isdigit) (at_least 0 (Class isdigit)))
        (Cat (literal ''.'') (Cat (at_least 1 (Class isspace)) (Class isupper)))) (d # rest)"
      by (rule first_class_prefix)
    with assms Cons show False
      by (simp add: patterns_def re_search_def)
  qed
  with Cons show ?thesis by simp
qed

lemma digit_not_chapter:
  assumes "isdigit d"
  shows "\<not> re_search (hd patterns) (lower (d # rest))"
proof -
  have "lower_char d \<noteq> CHR ''c''"
    using assms by (auto simp: char_defs)
  then have "\<not> match_prefix (Cat (Cat (Class (\<lambda>x. x = CHR ''c'')) (literal ''hapter''))
      (Cat (at_least 1 (Class isspace)) (at_least 1 (Class isdigit))))
      (lower_char d # lower rest)"
    by (intro first_class_prefix)
  then show ?thesis
    by (simp add: patterns_def re_search_def lower_def)
qed

lemma digit_not_upper: "isdigit d \<Longrightarrow> \<not> isupper d"
  by (auto simp: char_defs)

section \<open>The claims\<close>

text \<open>
  Claim C1. For every non-empty candidate list of length \<open>K\<close> and every total page count,
  after \<^verbatim>\<open>_calculate_end_pages\<close> the list still has \<open>K\<close> entries, the end page at every
  index \<open>i < K - 1\<close> is the start page at index \<open>i + 1\<close> minus one, and the end page at index
  \<open>K - 1\<close> is the total page count minus one. The function checks nothing else: the
  statement holds for every list (sorted or not), and every field other than the end page
  is returned as it was passed.
\<close>

theorem calculate_end_pages_boundaries:
  assumes "chapters \<noteq> []"
  shows "length (calculate_end_pages chapters total_pages) = length chapters
    \<and> (\<forall>i. int i < int (length chapters) - 1 \<longrightarrow>
          end_page (calculate_end_pages chapters total_pages ! i) =
            Some (start_page (calculate_end_pages chapters total_pages ! (i + 1)) - 1))
    \<and> end_page (calculate_end_pages chapters total_pages ! (length chapters - 1)) =
          Some (total_pages - 1)
    \<and> map (\<lambda>c. c\<lparr>end_page := None\<rparr>) (calculate_end_pages chapters total_pages) =
          map (\<lambda>c. c\<lparr>end_page := None\<rparr>) chapters"
proof -
  let ?r = "calculate_end_pages chapters total_pages"
  have K: "0 < length chapters" using assms by simp
  have nth: "i < length chapters \<Longrightarrow> ?r ! i = resolved chapters total_pages i" for i
    by (simp add: calculate_end_pages_closed_form)
  have inner: "int i < int (length chapters) - 1 \<Longrightarrow>
      end_page (?r ! i) = Some (start_page (?r ! (i + 1)) - 1)" for i
  proof -
    assume "int i < int (length chapters) - 1"
    then have i: "i + 1 < length chapters" by linarith
    then have "end_page (?r ! i) = Some (start_page (chapters ! (i + 1)) - 1)"
      by (simp add: nth resolved_def)
    moreover have "start_page (?r ! (i + 1)) = start_page (chapters ! (i + 1))"
      using i nth [of "i + 1"] by (simp add: resolved_def)
    ultimately show ?thesis by simp
  qed
  have final: "end_page (?r ! (length chapters - 1)) = Some (total_pages - 1)"
    using K by (simp add: nth resolved_def)
  have others: "map (\<lambda>c. c\<lparr>end_page := None\<rparr>) ?r = map (\<lambda>c. c\<lparr>end_page := None\<rparr>) chapters"
    by (rule nth_equalityI) (simp_all add: calculate_end_pages_closed_form resolved_def)
  show ?thesis using inner final others by simp
qed

theorem calculate_end_pages_boundaries_witness:
  "[\<lparr>title = ''A'', full_title = ''A'', parent = '''', start_page = 0, end_page = None,
      chapter_num = 1, font_size = None, level = 0\<rparr>,
    \<lparr>title = ''B'', full_title = ''B'', parent = '''', start_page = 5, end_page = None,
      chapter_num = 2, font_size = None, level = 0\<rparr>] \<noteq> []
   \<and> map end_page (calculate_end_pages
     [\<lparr>title = ''A'', full_title = ''A'', parent = '''', start_page = 0, end_page = None,
        chapter_num = 1, font_size = None, level = 0\<rparr>,
      \<lparr>title = ''B'', full_title = ''B'', parent = '''', start_page = 5, end_page = None,
        chapter_num = 2, font_size = None, level = 0\<rparr>] 15) = [Some 4, Some 14]"
proof -
  define a where "a = \<lparr>title = ''A'', full_title = ''A'', parent = '''', start_page = 0,
    end_page = None, chapter_num = 1, font_size = None, level = 0\<rparr>"
  define b where "b = \<lparr>title = ''B'', full_title = ''B'', parent = '''', start_page = 5,
    end_page = None, chapter_num = 2, font_size = None, level = 0\<rparr>"
  define r where "r = calculate_end_pages [a, b] 15"
  have ne: "[a, b] \<noteq> []" by simp
  note facts = calculate_end_pages_boundaries [OF ne, of 15, folded r_def]
  from facts have len: "length r = 2" by simp
  from facts have "int 0 < int (length [a, b]) - 1 \<longrightarrow>
      end_page (r ! 0) = Some (start_page (r ! (0 + 1)) - 1)" by blast
  then have e0: "end_page (r ! 0) = Some (start_page (r ! 1) - 1)" by simp
  from facts have e1: "end_page (r ! 1) = Some 14" by simp
  have "map start_page r = [start_page a, start_page b]"
    by (simp add: r_def)
  then have "map start_page r ! 1 = start_page b" by simp
  then have s1: "start_page (r ! 1) = 5"
    using len by (simp add: b_def)
  have "map end_page r = [end_page (r ! 0), end_page (r ! 1)]"
    by (rule nth_equalityI) (auto simp: len less_Suc_eq numeral_2_eq_2)
  then have "map end_page r = [Some 4, Some 14]"
    using e0 e1 s1 by simp
  then show ?thesis
    using ne by (simp add: r_def a_def b_def)
qed

text \<open>
  Claim C2, as amended. When bookmark detection yields nothing and the heading scan raises,
  \<^verbatim>\<open>detect_chapters\<close> returns what \<^verbatim>\<open>_create_default_chapters\<close> returns: the fixed chunks for
  the page count when pikepdf can open the file, and then \<^verbatim>\<open>detection_method\<close> is
  \<^verbatim>\<open>'headings'\<close>, the tag assigned after every return of \<^verbatim>\<open>_detect_from_headings\<close>; when
  pikepdf cannot open the file the exception of \<^verbatim>\<open>_create_default_chapters\<close> leaves
  \<^verbatim>\<open>detect_chapters\<close> and the attribute is unchanged. No path assigns a tag \<^verbatim>\<open>'default'\<close>.
\<close>

theorem detect_chapters_heading_failure:
  assumes "detect_from_bookmarks (pdf_path self) = []"
    and "detect_from_headings_try (pdf_path self) = Inl e"
  shows "detect_chapters self =
    (case pikepdf_open (pdf_path self) of
       None \<Rightarrow> (Inl PikepdfError, self)
     | Some pdf \<Rightarrow>
         (Inr (fixed_chunks (num_pages pdf)), self\<lparr>detection_method := Some ''headings''\<rparr>))"
  using assms
  by (simp add: detect_chapters_def detect_from_headings_def create_default_chapters_closed_form
      split: option.splits)

theorem detect_chapters_heading_failure_witness:
  "detect_from_bookmarks (pdf_path (init doc7)) = []
   \<and> detect_from_headings_try (pdf_path (init doc7)) = Inl FitzError
   \<and> detect_chapters (init doc7) =
       (Inr [\<lparr>title = ''Section 1'', full_title = ''Section 1'', parent = [], start_page = 0,
              end_page = Some 6, chapter_num = 1, font_size = None, level = 0\<rparr>],
        \<lparr>pdf_path = doc7, detection_method = Some ''headings''\<rparr>)"
proof -
  have b: "detect_from_bookmarks (pdf_path (init doc7)) = []"
    by (simp add: init_def doc7_bookmarks)
  have h: "detect_from_headings_try (pdf_path (init doc7)) = Inl FitzError"
    by (simp add: init_def doc7_headings)
  have "detect_chapters (init doc7) =
      (Inr (fixed_chunks 7), (init doc7)\<lparr>detection_method := Some ''headings''\<rparr>)"
    using detect_chapters_heading_failure [OF b h] by (simp add: init_def doc7_def)
  then show ?thesis
    using b h by (simp add: fixed_chunks_7 init_def)
qed

text \<open>
  The claim as stated fails on the seven-page document whose heading scan raises: the chunks
  are returned, and the tag is \<^verbatim>\<open>'headings'\<close>, not \<^verbatim>\<open>'default'\<close>.
\<close>

theorem detect_chapters_tag_counterexample:
  "detect_from_bookmarks doc7 = []
   \<and> detect_from_headings_try doc7 = Inl FitzError
   \<and> detection_method (snd (detect_chapters (init doc7))) = Some ''headings''
   \<and> detection_method (snd (detect_chapters (init doc7))) \<noteq> Some ''default''"
  by (simp add: doc7_bookmarks doc7_headings detect_chapters_def detect_from_headings_def
      create_default_chapters_closed_form init_def)
     (simp add: doc7_def)

text \<open>
  Claim C3, as amended. \<^verbatim>\<open>_create_default_chapters\<close> opens the file with pikepdf to read the
  page count. When that succeeds it returns the fixed chunks, which depend on the page count
  alone; when it fails the function raises.
\<close>

theorem create_default_chapters_result:
  "(pikepdf_open d = Some pdf \<longrightarrow>
      create_default_chapters d = Inr (fixed_chunks (num_pages pdf)))
   \<and> (pikepdf_open d = None \<longrightarrow> create_default_chapters d = Inl PikepdfError)"
  by (simp add: create_default_chapters_closed_form)

theorem create_default_chapters_result_witness:
  "pikepdf_open doc45 = Some \<lparr>num_pages = 45, outline_root = Some []\<rparr>
   \<and> create_default_chapters doc45 =
       Inr [\<lparr>title = ''Section 1'', full_title = ''Section 1'', parent = [], start_page = 0,
              end_page = Some 19, chapter_num = 1, font_size = None, level = 0\<rparr>,
            \<lparr>title = ''Section 2'', full_title = ''Section 2'', parent = [], start_page = 20,
              end_page = Some 39, chapter_num = 2, font_size = None, level = 0\<rparr>,
            \<lparr>title = ''Section 3'', full_title = ''Section 3'', parent = [], start_page = 40,
              end_page = Some 44, chapter_num = 3, font_size = None, level = 0\<rparr>]
   \<and> pikepdf_open doc_unreadable = None
   \<and> create_default_chapters doc_unreadable = Inl PikepdfError"
proof -
  have o: "pikepdf_open doc45 = Some \<lparr>num_pages = 45, outline_root = Some []\<rparr>"
    by (simp add: doc45_def)
  have n: "pikepdf_open doc_unreadable = None"
    by (simp add: doc_unreadable_def)
  have "[0..<(45 + 19) div 20] = [0, 1, 2]"
    by (simp add: upt_conv_Cons)
  then have chunks: "fixed_chunks 45 =
      [fixed_chunk 45 0, fixed_chunk 45 1, fixed_chunk 45 2]"
    by (simp add: fixed_chunks_def)
  from create_default_chapters_result [of doc45 "\<lparr>num_pages = 45, outline_root = Some []\<rparr>"] o
  have "create_default_chapters doc45 = Inr (fixed_chunks 45)" by simp
  moreover from create_default_chapters_result [of doc_unreadable] n
  have "create_default_chapters doc_unreadable = Inl PikepdfError" by simp
  ultimately show ?thesis
    using o n by (simp add: chunks fixed_chunk_def str_nat_digits)
qed

text \<open>
  The claim as stated fails on a file that no library can open: it reaches the default path
  (no bookmarks, the heading scan raises), and there \<^verbatim>\<open>_create_default_chapters\<close> raises, as
  does \<^verbatim>\<open>detect_chapters\<close>.
\<close>

theorem create_default_chapters_counterexample:
  "detect_from_bookmarks doc_unreadable = []
   \<and> detect_from_headings_try doc_unreadable = Inl FitzError
   \<and> create_default_chapters doc_unreadable = Inl PikepdfError
   \<and> fst (detect_chapters (init doc_unreadable)) = Inl PikepdfError"
  by (simp add: doc_unreadable_def detect_from_bookmarks_def detect_from_bookmarks_try_def
      detect_from_headings_try_def detect_from_headings_def create_default_chapters_def
      detect_chapters_def init_def)


text \<open>
  Claim C4, as amended. The heading scan visits the pages in ascending order, so its
  candidates are in ascending (not strictly ascending) order of \<^verbatim>\<open>start_page\<close>. The bookmark
  path returns the candidates in the order of the outline: their start pages are the
  resolved pages of the leaves in pre-order (\<open>leaf_pages\<close>), never re-sorted, so they ascend
  exactly when the outline lists its leaves in ascending page order.
\<close>

theorem start_pages_in_production_order:
  "(detect_from_headings_try d = Inr chapters \<longrightarrow> sorted (map start_page chapters))
   \<and> (pikepdf_open d = Some pdf \<and> outline_root pdf = Some items \<longrightarrow>
        map start_page (detect_from_bookmarks d) = leaf_pages items
        \<and> (sorted (map start_page (detect_from_bookmarks d)) = sorted (leaf_pages items)))"
  by (simp add: detect_from_bookmarks_start_pages detect_from_headings_try_sorted)

theorem start_pages_in_production_order_witness:
  "pikepdf_open doc_parts = Some \<lparr>num_pages = 15, outline_root = Some parts_outline\<rparr>
   \<and> outline_root \<lparr>num_pages = 15, outline_root = Some parts_outline\<rparr> = Some parts_outline
   \<and> map start_page (detect_from_bookmarks doc_parts) = [0, 5, 10]
   \<and> (\<exists>chapters. detect_from_headings_try doc_parts = Inr chapters
         \<and> sorted (map start_page chapters))"
proof -
  let ?pdf = "\<lparr>num_pages = 15, outline_root = Some parts_outline\<rparr>"
  have o: "pikepdf_open doc_parts = Some ?pdf" by (simp add: doc_parts_def)
  have r: "outline_root ?pdf = Some parts_outline" by simp
  obtain chapters where h: "detect_from_headings_try doc_parts = Inr chapters"
    by (simp add: detect_from_headings_try_def doc_parts_def Let_def)
  note facts = start_pages_in_production_order [of doc_parts chapters ?pdf parts_outline]
  from facts h have s: "sorted (map start_page chapters)" by blast
  from facts o r have "map start_page (detect_from_bookmarks doc_parts) = leaf_pages parts_outline"
    by blast
  then show ?thesis
    using o r h s by (simp add: parts_outline_leaf_pages)
qed

text \<open>
  The claim as stated fails on an outline that lists a chapter on page 5 before a chapter on
  page 0: the bookmark path returns the start pages 5, 0.
\<close>

theorem bookmark_order_counterexample:
  "map start_page (detect_from_bookmarks doc_unsorted) = [5, 0]
   \<and> \<not> sorted (map start_page (detect_from_bookmarks doc_unsorted))"
  by (simp add: doc_unsorted_def bookmark_defs)

text \<open>
  Claim C5. Whatever path produces the result of \<^verbatim>\<open>detect_chapters\<close> (bookmarks, headings or
  default chunks), its \<^verbatim>\<open>chapter_num\<close> values are 1, 2, ..., K in list order.
  \<^verbatim>\<open>_extract_nested_bookmarks\<close> started at any number gives consecutive numbers from there. A
  leaf whose destination does not resolve changes nothing: the result is that of the outline
  without the leaf, so it yields no candidate and takes no number.
\<close>

theorem chapter_numbers_contiguous:
  "(fst (detect_chapters self) = Inr chapters \<longrightarrow>
      map chapter_num chapters = [1..<length chapters + 1])
   \<and> map chapter_num (extract_nested_bookmarks items start_num parent_title lvl) =
        [start_num..<start_num + length (extract_nested_bookmarks items start_num parent_title lvl)]
   \<and> (get_bookmark_page item = None \<and> children item = [] \<longrightarrow>
        extract_nested_bookmarks (xs @ item # ys) start_num parent_title lvl =
        extract_nested_bookmarks (xs @ ys) start_num parent_title lvl)"
  using detect_chapters_numbered [of self chapters]
  by (simp add: extract_nested_bookmarks_numbered extract_nested_bookmarks_length
      extract_nested_bookmarks_skip)

theorem chapter_numbers_contiguous_witness:
  "fst (detect_chapters (init doc_broken)) =
     Inr [\<lparr>title = ''A'', full_title = ''A'', parent = [], start_page = 0, end_page = Some 4,
            chapter_num = 1, font_size = None, level = 0\<rparr>,
          \<lparr>title = ''B'', full_title = ''B'', parent = [], start_page = 5, end_page = Some 8,
            chapter_num = 2, font_size = None, level = 0\<rparr>]
   \<and> map chapter_num
        [\<lparr>title = ''A'', full_title = ''A'', parent = [], start_page = 0, end_page = Some 4,
            chapter_num = 1, font_size = None, level = 0\<rparr>,
          \<lparr>title = ''B'', full_title = ''B'', parent = [], start_page = 5, end_page = Some 8,
            chapter_num = 2, font_size = None, level = 0\<rparr>] = [1, 2]
   \<and> get_bookmark_page broken_leaf = None \<and> children broken_leaf = []
   \<and> extract_nested_bookmarks ([leaf ''A'' 0] @ broken_leaf # [leaf ''B'' 5]) 1 [] 0 =
       extract_nested_bookmarks ([leaf ''A'' 0] @ [leaf ''B'' 5]) 1 [] 0"
proof -
  have c: "children broken_leaf = []" by (simp add: broken_leaf_def)
  note facts = chapter_numbers_contiguous [where item = broken_leaf
      and xs = "[leaf ''A'' 0]" and ys = "[leaf ''B'' 5]" and start_num = 1
      and parent_title = "[]" and lvl = 0]
  from facts broken_leaf_unresolved c
  have "extract_nested_bookmarks ([leaf ''A'' 0] @ broken_leaf # [leaf ''B'' 5]) 1 [] 0 =
        extract_nested_bookmarks ([leaf ''A'' 0] @ [leaf ''B'' 5]) 1 [] 0"
    by blast
  then show ?thesis
    using doc_broken_chapters broken_leaf_unresolved c by simp
qed

text \<open>
  Claim C6. The threshold is computed from the sizes of the spans on the first 20 pages (all
  pages when there are fewer), \<open>N\<close> of them: it is 14 when \<open>N = 0\<close>, and otherwise the element
  at index \<open>\<lfloor>0.1 N\<rfloor>\<close> of the sizes sorted in descending order. The guard of the source on
  that index never fails.
\<close>

theorem heading_threshold_rank:
  "calculate_heading_threshold (analyze_font_sizes doc) =
     (let sizes = map span_size (concat (map page_spans (take 20 doc)));
          N = length sizes
      in if N = 0 then 14 else rev (sort sizes) ! nat \<lfloor>0.1 * real N\<rfloor>)"
  by (simp add: analyze_font_sizes_sample calculate_heading_threshold_rank Let_def tenth_floor)

theorem heading_threshold_rank_witness:
  "map span_size (concat (map page_spans (take 20 sample_pages))) =
     [24, 12, 12, 12, 12, 12, 12, 18, 12, 12, 12]
   \<and> calculate_heading_threshold (analyze_font_sizes sample_pages) = 18"
proof -
  have sizes: "map span_size (concat (map page_spans (take 20 sample_pages))) =
      [24, 12, 12, 12, 12, 12, 12, 18, 12, 12, 12]"
    by (simp add: sample_pages_def page_spans_def)
  have "rev (sort [24, 12, 12, 12, 12, 12, 12, 18, 12, 12, 12 :: real]) ! 1 = 18"
    by simp
  then show ?thesis
    using heading_threshold_rank [of sample_pages] by (simp add: sizes Let_def)
qed

text \<open>
  Claim C7 fails on the code. The pattern for numbered headings is searched in the lower-cased
  text, which has no upper-case letter, so it never matches there; a text that matches it as
  given starts with a digit, so neither the pattern for chapters nor the final test on the
  first character accepts it. Every text that matches the pattern is rejected, for instance
  \<^verbatim>\<open>"1. Introduction"\<close>, the example in the comment of the source.
\<close>

theorem numbered_headings_rejected:
  "re_search (patterns ! 1) s \<Longrightarrow> \<not> is_chapter_heading s"
proof -
  assume "re_search (patterns ! 1) s"
  then obtain d rest where s: "s = d # rest" and d: "isdigit d"
    using numbered_starts_with_digit by blast
  show ?thesis
    unfolding s using d
    by (simp add: is_chapter_heading_effective digit_not_chapter digit_not_upper)
qed

theorem numbered_headings_rejected_witness:
  "re_search (patterns ! 1) ''1. Introduction'' \<and> \<not> is_chapter_heading ''1. Introduction''"
proof -
  have m: "re_search (patterns ! 1) ''1. Introduction''"
    by (simp add: heading_defs char_defs)
  from numbered_headings_rejected [OF m] m show ?thesis by simp
qed

text \<open>
  Claim C8 fails on the code. A text of an upper-case letter followed by at least five
  upper-case letters or white-space characters matches the pattern for capitals as given, but
  the pattern is searched in the lower-cased text and never matches there. Such a text is
  accepted only by the final test, which holds below 100 characters: from 100 characters on,
  a text in capitals is rejected.
\<close>

theorem capitals_pass_only_by_length:
  assumes "isupper c" and "list_all (\<lambda>x. isupper x \<or> isspace x) cs" and "5 \<le> length cs"
  shows "re_search (patterns ! 2) (c # cs)
    \<and> is_chapter_heading (c # cs) = (length (c # cs) < 100)"
proof -
  have "\<forall>x \<in> set (c # cs). isupper x \<or> isspace x"
    using assms(1,2) by (simp add: list_all_iff)
  then have "is_chapter_heading (c # cs) =
      (length (c # cs) < 100 \<and> length (c # cs) > 3 \<and> isupper (hd (c # cs)))"
    by (rule capitals_only_by_catch_all)
  then show ?thesis
    using assms by (simp add: capitals_match_own_pattern)
qed

theorem capitals_pass_only_by_length_witness:
  "isupper CHR ''A'' \<and> list_all (\<lambda>x. isupper x \<or> isspace x) (replicate 99 CHR ''A'')
   \<and> 5 \<le> length (replicate 99 CHR ''A'')
   \<and> re_search (patterns ! 2) (CHR ''A'' # replicate 99 CHR ''A'')
   \<and> \<not> is_chapter_heading (CHR ''A'' # replicate 99 CHR ''A'')"
proof -
  have a: "isupper CHR ''A''" by (simp add: isupper_def ascii_uppercase_def)
  then have b: "list_all (\<lambda>x. isupper x \<or> isspace x) (replicate 99 CHR ''A'')"
    by (simp add: list_all_iff)
  have c: "5 \<le> length (replicate 99 CHR ''A'')" by simp
  from capitals_pass_only_by_length [OF a b c] a b c show ?thesis by simp
qed


text \<open>
  Claim C9, for documents whose span texts are ASCII, where the heading test of the model is
  that of the code. When bookmark detection yields nothing, \<^verbatim>\<open>fitz.open\<close> succeeds and no span
  of the document qualifies (large enough and accepted by the pattern test), the heading scan
  returns the empty list without raising, and \<^verbatim>\<open>detect_chapters\<close> returns the empty list with
  \<^verbatim>\<open>detection_method = 'headings'\<close>; \<^verbatim>\<open>_create_default_chapters\<close> is not called.
\<close>

theorem empty_heading_scan_is_final:
  assumes "detect_from_bookmarks (pdf_path self) = []"
    and "fitz_open (pdf_path self) = Some doc"
    and "\<forall>page_num < length doc. \<forall>sp \<in> set (page_spans (doc ! page_num)).
           isascii (span_text sp)"
    and "\<forall>page_num < length doc. \<forall>sp \<in> set (page_spans (doc ! page_num)).
           \<not> qualifies (calculate_heading_threshold (analyze_font_sizes doc)) sp"
  shows "detect_from_headings_try (pdf_path self) = Inr []
    \<and> detect_chapters self = (Inr [], self\<lparr>detection_method := Some ''headings''\<rparr>)"
proof -
  have "scan_pages doc (calculate_heading_threshold (analyze_font_sizes doc)) = ([], 1)"
    using assms(4) by (intro scan_pages_unqualified) blast
  then have "detect_from_headings_try (pdf_path self) = Inr []"
    using assms(2) by (simp add: detect_from_headings_try_def Let_def calculate_end_pages_def)
  then show ?thesis
    using assms(1) by (simp add: detect_chapters_def detect_from_headings_def)
qed

theorem empty_heading_scan_is_final_witness:
  "detect_from_bookmarks (pdf_path (init doc_quiet)) = []
   \<and> fitz_open (pdf_path (init doc_quiet)) = Some quiet_pages
   \<and> list_all (\<lambda>sp. isascii (span_text sp)) (concat (map page_spans quiet_pages))
   \<and> \<not> list_ex (qualifies (calculate_heading_threshold (analyze_font_sizes quiet_pages)))
         (concat (map page_spans quiet_pages))
   \<and> detect_chapters (init doc_quiet) =
       (Inr [], \<lparr>pdf_path = doc_quiet, detection_method = Some ''headings''\<rparr>)
   \<and> create_default_chapters doc_quiet = Inr (fixed_chunks 7)
   \<and> fixed_chunks 7 \<noteq> []"
proof -
  have b: "detect_from_bookmarks (pdf_path (init doc_quiet)) = []"
    by (simp add: init_def doc_quiet_def detect_from_bookmarks_def detect_from_bookmarks_try_def)
  have f: "fitz_open (pdf_path (init doc_quiet)) = Some quiet_pages"
    by (simp add: init_def doc_quiet_def)
  have a: "\<forall>page_num < length quiet_pages. \<forall>sp \<in> set (page_spans (quiet_pages ! page_num)).
      isascii (span_text sp)"
    by (simp add: quiet_pages_def page_spans_def isascii_def)
  have q: "\<forall>page_num < length quiet_pages. \<forall>sp \<in> set (page_spans (quiet_pages ! page_num)).
      \<not> qualifies (calculate_heading_threshold (analyze_font_sizes quiet_pages)) sp"
    using plain_text_no_heading
    by (simp add: quiet_pages_def page_spans_def qualifies_def)
  from empty_heading_scan_is_final [OF b f a q]
  have "detect_chapters (init doc_quiet) =
      (Inr [], \<lparr>pdf_path = doc_quiet, detection_method = Some ''headings''\<rparr>)"
    by (simp add: init_def)
  moreover have "create_default_chapters doc_quiet = Inr (fixed_chunks 7)"
    by (simp add: create_default_chapters_closed_form doc_quiet_def)
  moreover have "list_all (\<lambda>sp. isascii (span_text sp)) (concat (map page_spans quiet_pages))"
    by (simp add: quiet_pages_def page_spans_def isascii_def)
  moreover have "\<not> list_ex (qualifies (calculate_heading_threshold (analyze_font_sizes quiet_pages)))
      (concat (map page_spans quiet_pages))"
    using plain_text_no_heading
    by (simp add: quiet_pages_def page_spans_def qualifies_def)
  ultimately show ?thesis
    using b f by (simp add: fixed_chunks_7)
qed


text \<open>
  Claim C10. On the empty candidate list the loop body never runs: for every total page
  count \<^verbatim>\<open>_calculate_end_pages\<close> returns the empty list, and no branch of it raises.
\<close>

theorem calculate_end_pages_empty:
  "calculate_end_pages [] total_pages = []"
  by (simp add: calculate_end_pages_def)

end
